theory Spec2Isabelle
  imports Main
begin

section \<open>JavaScript values, objects and strings\<close>

text \<open>
  The data-access core of express-jobly (helpers/sql.js, which is
  src/unnamed/part_001; models/company.js, which is src/unnamed/part_000;
  models/job.js; models/user.js) works on plain JavaScript objects holding primitive
  values. A primitive is one of the constructors below; numbers are restricted to
  integers (the filters and ids of the application are integers). An object is the
  list of its own enumerable string-keyed properties in the order \<open>Object.keys\<close>
  enumerates them, with pairwise distinct keys; its prototype is
  \<open>Object.prototype\<close>, as for every object literal and every parsed JSON body.
  A property read that finds no own property therefore finds the properties of
  \<open>Object.prototype\<close>: built-in functions (\<open>JNative\<close> with the function's name)
  and, under \<open>__proto__\<close>, the prototype object itself (\<open>JProto\<close>).
\<close>

datatype jsval =
  JUndefined | JNull | JBool bool | JNum int | JStr string | JNative string | JProto

type_synonym obj = "(string \<times> jsval) list"

text \<open>Truthiness, as \<open>if (x)\<close>, \<open>!x\<close> and \<open>x || y\<close> read a value.\<close>

fun truthy :: "jsval \<Rightarrow> bool" where
  "truthy JUndefined = False"
| "truthy JNull = False"
| "truthy (JBool b) = b"
| "truthy (JNum n) = (n \<noteq> 0)"
| "truthy (JStr s) = (s \<noteq> [])"
| "truthy (JNative f) = True"
| "truthy JProto = True"

definition js_or :: "jsval \<Rightarrow> jsval \<Rightarrow> jsval" where
  "js_or a b = (if truthy a then a else b)"

text \<open>Decimal rendering of numbers inside a template literal.\<close>

definition digit_char :: "nat \<Rightarrow> char" where
  "digit_char d = ''0123456789'' ! d"

fun decimal :: "nat \<Rightarrow> string" where
  "decimal n = (if 10 \<le> n then decimal (n div 10) else []) @ [digit_char (n mod 10)]"

declare decimal.simps [simp del]

definition number_toString :: "int \<Rightarrow> string" where
  "number_toString i = (if 0 \<le> i then decimal (nat i) else CHR ''-'' # decimal (nat (- i)))"

fun toString :: "jsval \<Rightarrow> string" where
  "toString JUndefined = ''undefined''"
| "toString JNull = ''null''"
| "toString (JBool b) = (if b then ''true'' else ''false'')"
| "toString (JNum n) = number_toString n"
| "toString (JStr s) = s"
| "toString (JNative f) = ''function '' @ f @ ''() { [native code] }''"
| "toString JProto = ''[object Object]''"

text \<open>
  The properties of \<open>Object.prototype\<close> in the order
  \<open>Object.getOwnPropertyNames\<close> lists them in Node.js. The string form of a
  built-in function is the one Node.js prints.
\<close>

definition Object_prototype :: "(string \<times> jsval) list" where
  "Object_prototype =
     [(''constructor'', JNative ''Object''),
      (''__defineGetter__'', JNative ''__defineGetter__''),
      (''__defineSetter__'', JNative ''__defineSetter__''),
      (''hasOwnProperty'', JNative ''hasOwnProperty''),
      (''__lookupGetter__'', JNative ''__lookupGetter__''),
      (''__lookupSetter__'', JNative ''__lookupSetter__''),
      (''isPrototypeOf'', JNative ''isPrototypeOf''),
      (''propertyIsEnumerable'', JNative ''propertyIsEnumerable''),
      (''toString'', JNative ''toString''),
      (''valueOf'', JNative ''valueOf''),
      (''__proto__'', JProto),
      (''toLocaleString'', JNative ''toLocaleString'')]"

text \<open>\<open>Object.keys\<close>, \<open>Object.values\<close> and the property read \<open>o[k]\<close>: the own
  property when there is one, else the property inherited from \<open>Object.prototype\<close>,
  else \<open>undefined\<close>.\<close>

definition Object_keys :: "obj \<Rightarrow> string list" where
  "Object_keys ob = map fst ob"

definition Object_values :: "obj \<Rightarrow> jsval list" where
  "Object_values ob = map snd ob"

definition prop_get :: "obj \<Rightarrow> string \<Rightarrow> jsval" where
  "prop_get ob k =
     (case map_of ob k of
        Some v \<Rightarrow> v
      | None \<Rightarrow> (case map_of Object_prototype k of Some v \<Rightarrow> v | None \<Rightarrow> JUndefined))"

text \<open>\<open>Array.prototype.join\<close> on an array of strings.\<close>

fun join :: "string \<Rightarrow> string list \<Rightarrow> string" where
  "join sep [] = []"
| "join sep [x] = x"
| "join sep (x # y # ys) = x @ sep @ join sep (y # ys)"

text \<open>\<open>Array.prototype.indexOf\<close> (\<open>-1\<close> when absent) and an array read by index
  (\<open>undefined\<close> out of range).\<close>

fun indexOf :: "'a list \<Rightarrow> 'a \<Rightarrow> int" where
  "indexOf [] x = - 1"
| "indexOf (y # ys) x = (if y = x then 0 else (let r = indexOf ys x in if r < 0 then - 1 else r + 1))"

definition array_get :: "jsval list \<Rightarrow> int \<Rightarrow> jsval" where
  "array_get xs i = (if 0 \<le> i \<and> nat i < length xs then xs ! nat i else JUndefined)"

section \<open>Errors\<close>

text \<open>The error classes of expressError.js that the core throws, and the
  \<open>TypeError\<close> of the runtime; each carries its message.\<close>

datatype error = BadRequestError string | NotFoundError string | TypeError string

section \<open>helpers/sql.js (src/unnamed/part_001): the partial-update builder\<close>

record partial_update =
  setCols :: string
  values' :: "jsval list"

text \<open>The body of the arrow function mapped over the keys:
  \<^verbatim>\<open>`"${jsToSql[colName] || colName}"=$${idx + 1}`\<close>.\<close>

definition update_col :: "obj \<Rightarrow> string \<Rightarrow> nat \<Rightarrow> string" where
  \<open>update_col jsToSql colName idx =
     ''"'' @ toString (js_or (prop_get jsToSql colName) (JStr colName)) @ ''"=$''
       @ decimal (idx + 1)\<close>

definition sqlForPartialUpdate :: "obj \<Rightarrow> obj \<Rightarrow> error + partial_update" where
  "sqlForPartialUpdate dataToUpdate jsToSql =
     (let keys = Object_keys dataToUpdate in
      if length keys = 0 then Inl (BadRequestError ''No data'')
      else
        let cols = map (\<lambda>(idx, colName). update_col jsToSql colName idx) (enumerate 0 keys)
        in Inr \<lparr>setCols = join '', '' cols, values' = Object_values dataToUpdate\<rparr>)"

section \<open>The storage collaborator\<close>

text \<open>
  \<open>db.query(text, values)\<close> is the external storage engine: a statement is the pair
  of its arguments (\<open>None\<close> when the second argument is \<open>undefined\<close> or left out), and
  the engine is a parameter of every operation, mapping a statement to the ordered
  rows of its result.
\<close>

record statement =
  query_text :: string
  query_values :: "jsval list option"

type_synonym 'r db = "string \<Rightarrow> jsval list option \<Rightarrow> 'r list"

text \<open>The request body handed to \<open>findAll\<close>: an object whose properties (the only
  one the validated routes let through is \<open>filters\<close>) are objects.\<close>

type_synonym filters_body = "(string \<times> obj) list"

section \<open>models/company.js (src/unnamed/part_000): Company.findAll and Company.update\<close>

text \<open>One round of the \<open>for (const [idx,key] of filterKeys.entries())\<close> loop: three
  independent \<open>if\<close> statements, each pushing one condition.\<close>

definition company_cond :: "nat \<Rightarrow> string \<Rightarrow> string list \<Rightarrow> string list" where
  "company_cond idx key sqlWhereCondArr =
     (let a1 = (if key = ''nameLike''
                then sqlWhereCondArr @ [''name ILIKE $'' @ decimal (idx + 1)]
                else sqlWhereCondArr);
          a2 = (if key = ''minEmployees''
                then a1 @ [''num_employees>=$'' @ decimal (idx + 1)]
                else a1);
          a3 = (if key = ''maxEmployees''
                then a2 @ [''num_employees<=$'' @ decimal (idx + 1)]
                else a2)
      in a3)"

definition company_conds :: "string list \<Rightarrow> string list" where
  "company_conds filterKeys =
     fold (\<lambda>(idx, key). company_cond idx key) (enumerate 0 filterKeys) []"

definition company_query :: "string \<Rightarrow> string \<Rightarrow> string" where
  \<open>company_query sqlNumEmployeesSelectArg sqlWhereCondStr =
     ''\<newline>      SELECT handle,\<newline>        name,\<newline>        description,\<newline>        ''
       @ sqlNumEmployeesSelectArg
       @ ''\<newline>        logo_url AS "logoUrl"\<newline>    FROM companies\<newline>    ''
       @ sqlWhereCondStr
       @ ''\<newline>    ORDER BY name''\<close>

definition Company_findAll_statement :: "filters_body \<Rightarrow> error + statement" where
  \<open>Company_findAll_statement filtersObj =
     (if length (map fst filtersObj) > 0 then
        (case map_of filtersObj ''filters'' of
           None \<Rightarrow> Inl (TypeError ''Cannot convert undefined or null to object'')
         | Some filters \<Rightarrow>
             if length (Object_keys filters) > 0 then
               (let filterKeys = Object_keys filters;
                    filterVals = Object_values filters;
                    sqlWhereCondArr = company_conds filterKeys;
                    sqlWhereCondStr = ''WHERE '' @ join '' AND '' sqlWhereCondArr;
                    sqlNumEmployeesSelectArg =
                      (if ''minEmployees'' \<in> set filterKeys \<or> ''maxEmployees'' \<in> set filterKeys
                       then ''num_employees AS "numEmployees",'' else [])
                in Inr \<lparr>query_text = company_query sqlNumEmployeesSelectArg sqlWhereCondStr,
                        query_values = Some filterVals\<rparr>)
             else Inr \<lparr>query_text = company_query [] [], query_values = None\<rparr>)
      else Inr \<lparr>query_text = company_query [] [], query_values = None\<rparr>)\<close>

definition Company_findAll :: "'r db \<Rightarrow> filters_body \<Rightarrow> error + 'r list" where
  "Company_findAll db filtersObj =
     (case Company_findAll_statement filtersObj of
        Inl e \<Rightarrow> Inl e
      | Inr s \<Rightarrow> Inr (db (query_text s) (query_values s)))"

definition company_update_sql :: "string \<Rightarrow> string \<Rightarrow> string" where
  \<open>company_update_sql set_cols handleVarIdx =
     ''UPDATE companies \<newline>                      SET ''
       @ set_cols
       @ '' \<newline>                      WHERE handle = ''
       @ handleVarIdx
       @ '' \<newline>                      RETURNING handle, \<newline>                                name, \<newline>                                description, \<newline>                                num_employees AS "numEmployees", \<newline>                                logo_url AS "logoUrl"''\<close>

definition Company_update_statement :: "jsval \<Rightarrow> obj \<Rightarrow> error + statement" where
  "Company_update_statement handle data =
     (case sqlForPartialUpdate data
             [(''numEmployees'', JStr ''num_employees''), (''logoUrl'', JStr ''logo_url'')] of
        Inl e \<Rightarrow> Inl e
      | Inr r \<Rightarrow>
          (let handleVarIdx = ''$'' @ decimal (length (values' r) + 1);
               querySql = company_update_sql (setCols r) handleVarIdx
           in Inr \<lparr>query_text = querySql, query_values = Some (values' r @ [handle])\<rparr>))"

definition Company_update :: "obj db \<Rightarrow> jsval \<Rightarrow> obj \<Rightarrow> error + obj" where
  "Company_update db handle data =
     (case Company_update_statement handle data of
        Inl e \<Rightarrow> Inl e
      | Inr s \<Rightarrow>
          (case db (query_text s) (query_values s) of
             [] \<Rightarrow> Inl (NotFoundError (''No company: '' @ toString handle))
           | company # _ \<Rightarrow> Inr company))"

section \<open>models/job.js: Job.findAll and Job.update\<close>

text \<open>One round of the loop of \<open>Job.findAll\<close>. The state is the pair of the
  condition array and the \<open>values\<close> array handed to the query; \<open>valIdx\<close> is looked up
  with \<open>indexOf\<close>, the placeholder is numbered by the loop index.\<close>

definition job_cond ::
  "string list \<Rightarrow> jsval list \<Rightarrow> nat \<Rightarrow> string \<Rightarrow> string list \<times> jsval list
     \<Rightarrow> string list \<times> jsval list" where
  "job_cond filterKeys filterVals idx key st =
     (let valIdx = indexOf filterKeys key;
          st1 = (if key = ''titleLike''
                 then (fst st @ [''title ILIKE $'' @ decimal (idx + 1)],
                       snd st @ [array_get filterVals valIdx])
                 else st);
          st2 = (if key = ''minSalary''
                 then (fst st1 @ [''salary>=$'' @ decimal (idx + 1)],
                       snd st1 @ [array_get filterVals valIdx])
                 else st1);
          st3 = (if key = ''hasEquity''
                 then (if truthy (array_get filterVals valIdx)
                       then (fst st2 @ [''equity>'0'' @ [CHR 0x27]], snd st2)
                       else st2)
                 else st2)
      in st3)"

definition job_conds :: "obj \<Rightarrow> string list \<times> jsval list" where
  "job_conds filters =
     (let filterKeys = Object_keys filters;
          filterVals = Object_values filters
      in fold (\<lambda>(idx, key). job_cond filterKeys filterVals idx key)
           (enumerate 0 filterKeys) ([], []))"

definition job_query :: "string \<Rightarrow> string" where
  \<open>job_query sqlWhereCondStr =
     ''\<newline>      SELECT id, title, salary, equity, company_handle\<newline>      FROM jobs\<newline>      ''
       @ sqlWhereCondStr
       @ ''\<newline>      ORDER BY id''\<close>

definition Job_findAll_statement :: "filters_body \<Rightarrow> error + statement" where
  "Job_findAll_statement filtersObj =
     (if length (map fst filtersObj) > 0 then
        (case map_of filtersObj ''filters'' of
           None \<Rightarrow> Inl (TypeError ''Cannot convert undefined or null to object'')
         | Some filters \<Rightarrow>
             if length (Object_keys filters) > 0 then
               (let (sqlWhereCondArr, vs) = job_conds filters;
                    sqlWhereCondStr = ''WHERE '' @ join '' AND '' sqlWhereCondArr
                in Inr \<lparr>query_text = job_query sqlWhereCondStr, query_values = Some vs\<rparr>)
             else Inr \<lparr>query_text = job_query [], query_values = Some []\<rparr>)
      else Inr \<lparr>query_text = job_query [], query_values = Some []\<rparr>)"

definition Job_findAll :: "'r db \<Rightarrow> filters_body \<Rightarrow> error + 'r list" where
  "Job_findAll db filtersObj =
     (case Job_findAll_statement filtersObj of
        Inl e \<Rightarrow> Inl e
      | Inr s \<Rightarrow> Inr (db (query_text s) (query_values s)))"

definition job_update_sql :: "string \<Rightarrow> string \<Rightarrow> string" where
  \<open>job_update_sql set_cols idVarIdx =
     ''UPDATE jobs \<newline>                      SET ''
       @ set_cols
       @ '' \<newline>                      WHERE id = ''
       @ idVarIdx
       @ '' \<newline>                      RETURNING id, title, salary, equity, company_handle''\<close>

definition Job_update_statement :: "jsval \<Rightarrow> obj \<Rightarrow> error + statement" where
  "Job_update_statement jid data =
     (case sqlForPartialUpdate data
             [(''title'', JStr ''title''), (''salary'', JStr ''salary''),
              (''equity'', JStr ''equity'')] of
        Inl e \<Rightarrow> Inl e
      | Inr r \<Rightarrow>
          (let idVarIdx = ''$'' @ decimal (length (values' r) + 1);
               querySql = job_update_sql (setCols r) idVarIdx
           in Inr \<lparr>query_text = querySql, query_values = Some (values' r @ [jid])\<rparr>))"

definition Job_update :: "obj db \<Rightarrow> jsval \<Rightarrow> obj \<Rightarrow> error + obj" where
  "Job_update db jid data =
     (case Job_update_statement jid data of
        Inl e \<Rightarrow> Inl e
      | Inr s \<Rightarrow>
          (case db (query_text s) (query_values s) of
             [] \<Rightarrow> Inl (NotFoundError (''No job: '' @ toString jid))
           | job # _ \<Rightarrow> Inr job))"

section \<open>models/user.js: User.findAll and User.update\<close>

definition user_query :: string where
  \<open>user_query =
     ''SELECT\<newline>                    users.username,\<newline>                    first_name AS "firstName",\<newline>                    last_name AS "lastName",\<newline>                    email,\<newline>                    is_admin AS "isAdmin",\<newline>                    job_id\<newline>            FROM users\<newline>            LEFT JOIN applications\<newline>            ON users.username = applications.username\<newline>           ORDER BY users.username''\<close>

text \<open>
  A row of the join carries the user's columns and the \<open>job_id\<close> of one application
  (\<open>null\<close> for the single row of a user with no application). The entity pushed to
  \<open>allUsers\<close> carries the same columns and a reference to its own \<open>jobs\<close> array.
\<close>

record user_cols =
  username :: jsval
  firstName :: jsval
  lastName :: jsval
  email :: jsval
  isAdmin :: jsval

record user_row = user_cols +
  job_id :: jsval

type_synonym addr = nat

record user_entity = user_cols +
  jobs :: addr

text \<open>
  Arrays are mutable and shared by reference, so they live in a store: the list of
  the arrays allocated so far, an array's address being its index. \<open>array_new\<close> is
  the allocation done by an array literal (\<open>[]\<close>, \<open>[...jobs]\<close>), \<open>array_push\<close> is
  \<open>push\<close>, and \<open>array_truncate\<close> is the assignment \<open>jobs.length = 0\<close>.
\<close>

type_synonym heap = "jsval list list"

definition array_new :: "heap \<Rightarrow> jsval list \<Rightarrow> heap \<times> addr" where
  "array_new h xs = (h @ [xs], length h)"

definition array_read :: "heap \<Rightarrow> addr \<Rightarrow> jsval list" where
  "array_read h a = (if a < length h then h ! a else [])"

definition array_push :: "heap \<Rightarrow> addr \<Rightarrow> jsval \<Rightarrow> heap" where
  "array_push h a v = h[a := array_read h a @ [v]]"

definition array_truncate :: "heap \<Rightarrow> addr \<Rightarrow> heap" where
  "array_truncate h a = h[a := []]"

record agg_state =
  store :: heap
  allUsers :: "user_entity list"

text \<open>The callback of \<open>resultRows.forEach((currObj,i) => ...)\<close>; \<open>jobs_arr\<close> is the
  address of the accumulator \<open>const jobs = []\<close>.\<close>

definition forEach_step :: "user_row list \<Rightarrow> addr \<Rightarrow> nat \<times> user_row \<Rightarrow> agg_state \<Rightarrow> agg_state" where
  "forEach_step rows jobs_arr = (\<lambda>(i, currObj) st.
     (let h1 = array_push (store st) jobs_arr (job_id currObj) in
      if \<not> i + 1 < length rows \<or> username currObj \<noteq> username (rows ! (i + 1)) then
        (let (h2, copy) = array_new h1 (array_read h1 jobs_arr);
             finalUserObj = \<lparr>username = username currObj, firstName = firstName currObj,
                             lastName = lastName currObj, email = email currObj,
                             isAdmin = isAdmin currObj, jobs = copy\<rparr>
         in \<lparr>store = array_truncate h2 jobs_arr, allUsers = allUsers st @ [finalUserObj]\<rparr>)
      else st\<lparr>store := h1\<rparr>))"

definition aggregate_rows :: "user_row list \<Rightarrow> agg_state" where
  "aggregate_rows resultRows =
     (let (h0, jobs_arr) = array_new [] []
      in fold (forEach_step resultRows jobs_arr) (enumerate 0 resultRows)
           \<lparr>store = h0, allUsers = []\<rparr>)"

definition User_findAll :: "user_row db \<Rightarrow> agg_state" where
  "User_findAll db = aggregate_rows (db user_query None)"

text \<open>What a caller reads from the returned entities: each username with the
  contents of the entity's \<open>jobs\<close> array.\<close>

definition entity_view :: "agg_state \<Rightarrow> (jsval \<times> jsval list) list" where
  "entity_view st = map (\<lambda>u. (username u, array_read (store st) (jobs u))) (allUsers st)"

text \<open>Property assignment \<open>o[k] = v\<close> and \<open>delete o[k]\<close> on an object.\<close>

definition prop_set :: "obj \<Rightarrow> string \<Rightarrow> jsval \<Rightarrow> obj" where
  "prop_set ob k v =
     (if k \<in> set (map fst ob) then map (\<lambda>(k', v'). if k' = k then (k', v) else (k', v')) ob
      else ob @ [(k, v)])"

definition prop_delete :: "obj \<Rightarrow> string \<Rightarrow> obj" where
  "prop_delete ob k = filter (\<lambda>(k', v'). k' \<noteq> k) ob"

definition user_update_sql :: "string \<Rightarrow> string \<Rightarrow> string" where
  \<open>user_update_sql set_cols usernameVarIdx =
     ''UPDATE users \<newline>                      SET ''
       @ set_cols
       @ '' \<newline>                      WHERE username = ''
       @ usernameVarIdx
       @ '' \<newline>                      RETURNING username,\<newline>                                first_name AS "firstName",\<newline>                                last_name AS "lastName",\<newline>                                email,\<newline>                                is_admin AS "isAdmin"''\<close>

text \<open>\<open>bcrypt.hash(_, BCRYPT_WORK_FACTOR)\<close> is an external collaborator, the
  parameter \<open>hash\<close>.\<close>

definition User_update_statement :: "(jsval \<Rightarrow> jsval) \<Rightarrow> jsval \<Rightarrow> obj \<Rightarrow> error + statement" where
  "User_update_statement hash uname data =
     (let data1 = (if truthy (prop_get data ''password'')
                   then prop_set data ''password'' (hash (prop_get data ''password''))
                   else data)
      in case sqlForPartialUpdate data1
                [(''firstName'', JStr ''first_name''), (''lastName'', JStr ''last_name''),
                 (''isAdmin'', JStr ''is_admin'')] of
           Inl e \<Rightarrow> Inl e
         | Inr r \<Rightarrow>
             (let usernameVarIdx = ''$'' @ decimal (length (values' r) + 1);
                  querySql = user_update_sql (setCols r) usernameVarIdx
              in Inr \<lparr>query_text = querySql, query_values = Some (values' r @ [uname])\<rparr>))"

definition User_update :: "(jsval \<Rightarrow> jsval) \<Rightarrow> obj db \<Rightarrow> jsval \<Rightarrow> obj \<Rightarrow> error + obj" where
  "User_update hash db uname data =
     (case User_update_statement hash uname data of
        Inl e \<Rightarrow> Inl e
      | Inr s \<Rightarrow>
          (case db (query_text s) (query_values s) of
             [] \<Rightarrow> Inl (NotFoundError (''No user: '' @ toString uname))
           | user # _ \<Rightarrow> Inr (prop_delete user ''password'')))"

section \<open>Vocabulary of the specification\<close>

text \<open>
  The positional placeholders of a fragment, in order of occurrence: every \<open>$\<close>
  that is followed by at least one decimal digit, read with its maximal run of digits.
\<close>

definition is_digit :: "char \<Rightarrow> bool" where
  "is_digit c = (c \<in> set ''0123456789'')"

definition digit_val :: "char \<Rightarrow> nat" where
  "digit_val c = nat (indexOf ''0123456789'' c)"

definition nat_of_digits :: "string \<Rightarrow> nat" where
  "nat_of_digits ds = fold (\<lambda>c n. 10 * n + digit_val c) ds 0"

fun placeholders :: "string \<Rightarrow> nat list" where
  "placeholders [] = []"
| "placeholders (c # cs) =
     (if c = CHR ''$'' \<and> takeWhile is_digit cs \<noteq> []
      then nat_of_digits (takeWhile is_digit cs) # placeholders cs
      else placeholders cs)"

text \<open>
  Grouping of ordered join rows as a pure function: the accumulator collects the
  child value of every row, and a parent is emitted with the accumulated children
  when the next row belongs to another parent or there is no next row.
\<close>

fun group_rows :: "jsval list \<Rightarrow> user_row list \<Rightarrow> (jsval \<times> jsval list) list" where
  "group_rows acc [] = []"
| "group_rows acc [r] = [(username r, acc @ [job_id r])]"
| "group_rows acc (r # r' # rs) =
     (if username r \<noteq> username r'
      then (username r, acc @ [job_id r]) # group_rows [] (r' # rs)
      else group_rows (acc @ [job_id r]) (r' # rs))"


definition resolved_column :: "obj \<Rightarrow> string \<Rightarrow> string" where
  "resolved_column jsToSql name =
     (case map_of jsToSql name of
        Some v \<Rightarrow> if truthy v then toString v else name
      | None \<Rightarrow> (case map_of Object_prototype name of
                   Some v \<Rightarrow> toString v
                 | None \<Rightarrow> name))"

text \<open>The property names of \<open>Object.prototype\<close>.\<close>

definition inherited_names :: "string set" where
  "inherited_names = set (map fst Object_prototype)"

text \<open>A text contains a word when the word occurs in it at some position.\<close>

definition contains :: "string \<Rightarrow> string \<Rightarrow> bool" where
  "contains s p = list_ex (\<lambda>i. take (length p) (drop i s) = p) [0 ..< Suc (length s)]"

text \<open>
  The key of an update-by-key statement is bound last: the parameter list has one
  element more than the \<open>n\<close> SET parameters, its last element is the key, and the
  last placeholder of the statement is \<open>$<n+1>\<close>.
\<close>

definition key_bound_last :: "statement \<Rightarrow> jsval \<Rightarrow> nat \<Rightarrow> bool" where
  "key_bound_last s key n =
     (case query_values s of
        None \<Rightarrow> False
      | Some ps \<Rightarrow> length ps = n + 1 \<and> ps ! n = key
                  \<and> placeholders (query_text s) \<noteq> []
                  \<and> last (placeholders (query_text s)) = n + 1)"

text \<open>The enumerated filter names of each entity, and the names whose entry emits a
  parameter in the jobs builder.\<close>

definition company_filter_names :: "string set" where
  "company_filter_names = {''nameLike'', ''minEmployees'', ''maxEmployees''}"

definition job_filter_names :: "string set" where
  "job_filter_names = {''titleLike'', ''minSalary'', ''hasEquity''}"

definition job_param_names :: "string set" where
  "job_param_names = {''titleLike'', ''minSalary''}"

text \<open>The positions, from \<open>n\<close> on, of the entries of a jobs filter spec that emit a
  parameter.\<close>

definition job_positions :: "string list \<Rightarrow> nat \<Rightarrow> nat list" where
  "job_positions filterKeys n = filter (\<lambda>i. filterKeys ! i \<in> job_param_names) [n ..< length filterKeys]"

text \<open>
  The filter spec carried by a request body, the fragment a list query holds for it
  (empty for a spec with zero entries, otherwise \<open>WHERE\<close> and the conditions joined
  with \<open>AND\<close>), and the parts of the list queries: the SELECT/FROM projection and
  the ORDER BY clause of each entity.
\<close>

definition filter_spec :: "filters_body \<Rightarrow> obj" where
  "filter_spec body = (case map_of body ''filters'' of Some filters \<Rightarrow> filters | None \<Rightarrow> [])"

definition where_fragment :: "obj \<Rightarrow> string list \<Rightarrow> string" where
  "where_fragment spec conds = (if spec = [] then [] else ''WHERE '' @ join '' AND '' conds)"

definition company_projection :: "bool \<Rightarrow> string" where
  \<open>company_projection with_employees =
     ''\<newline>      SELECT handle,\<newline>        name,\<newline>        description,\<newline>        ''
       @ (if with_employees then ''num_employees AS "numEmployees",'' else [])
       @ ''\<newline>        logo_url AS "logoUrl"\<newline>    FROM companies\<newline>    ''\<close>

definition company_order_by :: string where
  "company_order_by = ''\<newline>    ORDER BY name''"

definition job_projection :: string where
  "job_projection =
     ''\<newline>      SELECT id, title, salary, equity, company_handle\<newline>      FROM jobs\<newline>      ''"

definition job_order_by :: string where
  "job_order_by = ''\<newline>      ORDER BY id''"

definition user_projection :: string where
  \<open>user_projection =
     ''SELECT\<newline>                    users.username,\<newline>                    first_name AS "firstName",\<newline>                    last_name AS "lastName",\<newline>                    email,\<newline>                    is_admin AS "isAdmin",\<newline>                    job_id\<newline>            FROM users\<newline>            LEFT JOIN applications\<newline>            ON users.username = applications.username\<newline>           ''\<close>

definition user_order_by :: string where
  "user_order_by = ''ORDER BY users.username''"

text \<open>
  The invariant of the aggregation loop: the accumulator is allocated, every emitted
  entity refers to an allocated array other than the accumulator, and no two
  entities refer to the same array. A row flushes when it is the last one or the
  next row has another username.
\<close>

definition agg_inv :: "addr \<Rightarrow> agg_state \<Rightarrow> bool" where
  "agg_inv jobs_arr st =
     (jobs_arr < length (store st)
      \<and> (\<forall>u \<in> set (allUsers st). jobs u < length (store st) \<and> jobs u \<noteq> jobs_arr)
      \<and> distinct (map jobs (allUsers st)))"

definition flushes :: "user_row list \<Rightarrow> nat \<Rightarrow> user_row \<Rightarrow> bool" where
  "flushes rows i currObj =
     (\<not> i + 1 < length rows \<or> username currObj \<noteq> username (rows ! (i + 1)))"

text \<open>The rows of the specification's grouping example:
  \<open>(user="a", job=1), (user="a", job=2), (user="b", job=null)\<close>.\<close>

definition grouping_example :: "user_row list" where
  "grouping_example =
     [\<lparr>username = JStr ''a'', firstName = JStr ''A'', lastName = JStr ''A'', email = JStr ''a@x'',
        isAdmin = JBool False, job_id = JNum 1\<rparr>,
      \<lparr>username = JStr ''a'', firstName = JStr ''A'', lastName = JStr ''A'', email = JStr ''a@x'',
        isAdmin = JBool False, job_id = JNum 2\<rparr>,
      \<lparr>username = JStr ''b'', firstName = JStr ''B'', lastName = JStr ''B'', email = JStr ''b@x'',
        isAdmin = JBool False, job_id = JNull\<rparr>]"

section \<open>Decimal numbers and placeholders\<close>

lemma small_cases:
  "d < (10::nat) \<Longrightarrow> d = 0 \<or> d = 1 \<or> d = 2 \<or> d = 3 \<or> d = 4 \<or> d = 5 \<or> d = 6 \<or> d = 7 \<or> d = 8 \<or> d = 9"
  by arith

lemma digit_char_is_digit: "d < 10 \<Longrightarrow> is_digit (digit_char d)"
  using small_cases [of d] by (auto simp: is_digit_def digit_char_def)

lemma digit_val_digit_char: "d < 10 \<Longrightarrow> digit_val (digit_char d) = d"
  using small_cases [of d] by (auto simp: digit_val_def digit_char_def)

lemma decimal_digits: "\<forall>c \<in> set (decimal n). is_digit c"
proof (induction n rule: decimal.induct)
  case (1 n)
  show ?case
  proof (cases "10 \<le> n")
    case True
    with 1 show ?thesis
      by (subst decimal.simps) (simp add: digit_char_is_digit)
  next
    case False
    then show ?thesis
      by (subst decimal.simps) (simp add: digit_char_is_digit)
  qed
qed

lemma decimal_nonempty: "decimal n \<noteq> []"
  by (subst decimal.simps) simp

lemma nat_of_digits_snoc: "nat_of_digits (ds @ [c]) = 10 * nat_of_digits ds + digit_val c"
  by (simp add: nat_of_digits_def)

lemma nat_of_digits_decimal: "nat_of_digits (decimal n) = n"
proof (induction n rule: decimal.induct)
  case (1 n)
  show ?case
  proof (cases "10 \<le> n")
    case True
    with 1 have "nat_of_digits (decimal (n div 10)) = n div 10" by simp
    with True show ?thesis
      by (subst decimal.simps) (simp add: nat_of_digits_snoc digit_val_digit_char)
  next
    case False
    then show ?thesis
      by (subst decimal.simps) (simp add: nat_of_digits_def digit_val_digit_char)
  qed
qed

lemma takeWhile_digits_append:
  "\<forall>c \<in> set ds. is_digit c \<Longrightarrow> b = [] \<or> \<not> is_digit (hd b) \<Longrightarrow> takeWhile is_digit (ds @ b) = ds"
  by (cases b) (auto simp: takeWhile_append2)

lemma takeWhile_append_stop:
  "b = [] \<or> \<not> is_digit (hd b) \<Longrightarrow> takeWhile is_digit (a @ b) = takeWhile is_digit a"
  by (induction a) (auto, cases b, auto)

lemma placeholders_append:
  "b = [] \<or> \<not> is_digit (hd b) \<Longrightarrow> placeholders (a @ b) = placeholders a @ placeholders b"
  by (induction a) (simp_all add: takeWhile_append_stop)

lemma placeholders_digits:
  "\<forall>c \<in> set ds. is_digit c \<Longrightarrow> placeholders (ds @ b) = placeholders b"
  by (induction ds) (auto simp: is_digit_def)

lemma placeholders_dollar_decimal:
  assumes "b = [] \<or> \<not> is_digit (hd b)"
  shows "placeholders (CHR ''$'' # decimal n @ b) = n # placeholders b"
proof -
  have tw: "takeWhile is_digit (decimal n @ b) = decimal n"
    using decimal_digits [of n] assms by (rule takeWhile_digits_append)
  have "placeholders (CHR ''$'' # decimal n @ b)
          = nat_of_digits (decimal n) # placeholders (decimal n @ b)"
    by (simp only: placeholders.simps tw) (simp add: decimal_nonempty)
  also have "\<dots> = n # placeholders b"
    using decimal_digits [of n] by (simp only: nat_of_digits_decimal placeholders_digits)
  finally show ?thesis .
qed

section \<open>Evaluation on concrete filter specs and updates\<close>

lemmas eval_defs =
  Object_keys_def Object_values_def prop_get_def Object_prototype_def js_or_def array_get_def
  digit_char_def number_toString_def is_digit_def digit_val_def nat_of_digits_def

lemma decimal_small: "n < 10 \<Longrightarrow> decimal n = [digit_char n]"
  by (subst decimal.simps) simp

text \<open>
  Claim C1. The jobs filter builder should number placeholders by the count of
  parameters emitted so far. \<open>Job.findAll\<close> numbers them by the loop index instead:
  on \<open>{titleLike: "x", hasEquity: true, minSalary: 5}\<close> the fragment holds the
  placeholders \<open>$1\<close> and \<open>$3\<close>, with a gap at \<open>$2\<close>, while the parameter list
  is \<open>["x", 5]\<close>.
\<close>

theorem C1_job_filter_numbering_gap:
  "Job_findAll_statement
     [(''filters'', [(''titleLike'', JStr ''x''), (''hasEquity'', JBool True),
                     (''minSalary'', JNum 5)])]
   = Inr \<lparr>query_text =
            job_query (''WHERE title ILIKE $1 AND equity>'0'' @ [CHR 0x27] @ '' AND salary>=$3''),
          query_values = Some [JStr ''x'', JNum 5]\<rparr>
   \<and> placeholders (''WHERE title ILIKE $1 AND equity>'0'' @ [CHR 0x27] @ '' AND salary>=$3'')
       = [1, 3]"
  by (simp add: Job_findAll_statement_def job_conds_def job_cond_def eval_defs decimal_small)

text \<open>
  Claim C2. Placeholder \<open>$i\<close> should correspond to \<open>params[i-1]\<close> in every
  generated fragment. For the jobs filter builder on
  \<open>{hasEquity: true, minSalary: 5}\<close> the only placeholder is \<open>$2\<close> and the
  parameter list has the single element \<open>5\<close>: the value sits at \<open>params[0]\<close>,
  and \<open>params[1]\<close> does not exist.
\<close>

theorem C2_job_filter_misaligned:
  "Job_findAll_statement [(''filters'', [(''hasEquity'', JBool True), (''minSalary'', JNum 5)])]
   = Inr \<lparr>query_text = job_query (''WHERE equity>'0'' @ [CHR 0x27] @ '' AND salary>=$2''),
          query_values = Some [JNum 5]\<rparr>
   \<and> placeholders (''WHERE equity>'0'' @ [CHR 0x27] @ '' AND salary>=$2'') = [2]"
  by (simp add: Job_findAll_statement_def job_conds_def job_cond_def eval_defs decimal_small)

text \<open>
  Claim C5. Whatever the translation table, an update mapping with zero entries
  makes the builder throw \<open>BadRequestError("No data")\<close>, the client-class
  empty-input error; no SET fragment is returned, and the three update operations
  fail with that error whatever the storage engine is.
\<close>

theorem C5_empty_update_rejected:
  "sqlForPartialUpdate [] jsToSql = Inl (BadRequestError ''No data'')
   \<and> isl (sqlForPartialUpdate [] jsToSql)
   \<and> Company_update db key [] = Inl (BadRequestError ''No data'')
   \<and> User_update hash db key [] = Inl (BadRequestError ''No data'')
   \<and> Job_update db key [] = Inl (BadRequestError ''No data'')"
  by (simp add: sqlForPartialUpdate_def Object_keys_def Company_update_def
        Company_update_statement_def User_update_def User_update_statement_def
        Job_update_def Job_update_statement_def prop_get_def Object_prototype_def)

section \<open>Properties of the partial-update builder\<close>

lemma sqlForPartialUpdate_nonempty:
  "dataToUpdate \<noteq> [] \<Longrightarrow>
   sqlForPartialUpdate dataToUpdate jsToSql =
     Inr \<lparr>setCols = join '', '' (map (\<lambda>(idx, colName). update_col jsToSql colName idx)
                                   (enumerate 0 (map fst dataToUpdate))),
          values' = map snd dataToUpdate\<rparr>"
  by (simp add: sqlForPartialUpdate_def Object_keys_def Object_values_def)

lemma Object_prototype_truthy: "map_of Object_prototype k = Some v \<Longrightarrow> truthy v"
  by (auto simp: Object_prototype_def split: if_splits)

lemma not_inherited: "k \<notin> inherited_names \<Longrightarrow> map_of Object_prototype k = None"
  by (simp add: inherited_names_def map_of_eq_None_iff)

lemma update_col_resolved:
  \<open>update_col jsToSql colName idx =
     ''"'' @ resolved_column jsToSql colName @ ''"=$'' @ decimal (idx + 1)\<close>
  by (auto simp: update_col_def resolved_column_def prop_get_def js_or_def
           dest: Object_prototype_truthy split: option.splits)





lemma map_of_prop_delete: "map_of (prop_delete tbl k) k = None"
  by (auto simp: prop_delete_def map_of_eq_None_iff)

lemma map_of_prop_delete_other:
  "k' \<noteq> k \<Longrightarrow> map_of (prop_delete tbl k) k' = map_of tbl k'"
  by (induction tbl) (auto simp: prop_delete_def)

lemma update_col_prop_delete:
  assumes "\<not> truthy (prop_get jsToSql colName)" "colName \<notin> inherited_names"
  shows "update_col (prop_delete jsToSql colName) k idx = update_col jsToSql k idx"
proof (cases "k = colName")
  case True
  with assms show ?thesis
    by (simp add: update_col_def js_or_def prop_get_def map_of_prop_delete not_inherited)
next
  case False
  then show ?thesis
    by (simp add: update_col_def prop_get_def map_of_prop_delete_other)
qed

text \<open>
  Claim C10, amended. The builder resolves column names by the truthiness of
  \<open>jsToSql[colName]\<close>, not by key presence: a name for which that value is falsy
  (the table has the name with a falsy value such as the empty string) is used
  verbatim as the column name. When the name is no property name of
  \<open>Object.prototype\<close>, the builder returns, for every update mapping, what it
  returns for the table with that entry deleted.
\<close>

theorem C10_falsy_translation_is_absent:
  assumes "\<not> truthy (prop_get jsToSql colName)"
  shows \<open>update_col jsToSql colName idx = ''"'' @ colName @ ''"=$'' @ decimal (idx + 1)
    \<and> (colName \<notin> inherited_names \<longrightarrow>
          sqlForPartialUpdate dataToUpdate jsToSql
            = sqlForPartialUpdate dataToUpdate (prop_delete jsToSql colName))\<close>
proof -
  have \<open>update_col jsToSql colName idx = ''"'' @ colName @ ''"=$'' @ decimal (idx + 1)\<close>
    using assms by (simp add: update_col_def js_or_def)
  moreover have "sqlForPartialUpdate dataToUpdate jsToSql
        = sqlForPartialUpdate dataToUpdate (prop_delete jsToSql colName)"
    if "colName \<notin> inherited_names"
    by (simp add: sqlForPartialUpdate_def Let_def update_col_prop_delete [OF assms that])
  ultimately show ?thesis by simp
qed

text \<open>
  A table that maps \<open>firstName\<close> to the empty string: the column is \<open>firstName\<close>,
  and the builder returns what it returns without that entry.
\<close>

theorem C10_falsy_translation_witness:
  \<open>\<not> truthy (prop_get [(''firstName'', JStr []), (''lastName'', JStr ''last_name'')] ''firstName'')
   \<and> ''firstName'' \<notin> inherited_names
   \<and> update_col [(''firstName'', JStr []), (''lastName'', JStr ''last_name'')] ''firstName'' 0
       = ''"firstName"=$1''
   \<and> sqlForPartialUpdate [(''firstName'', JStr ''A''), (''lastName'', JStr ''B'')]
         [(''firstName'', JStr []), (''lastName'', JStr ''last_name'')]
       = sqlForPartialUpdate [(''firstName'', JStr ''A''), (''lastName'', JStr ''B'')]
           [(''lastName'', JStr ''last_name'')]\<close>
proof -
  have f: "\<not> truthy (prop_get [(''firstName'', JStr []), (''lastName'', JStr ''last_name'')]
                          ''firstName'')"
    by (simp add: prop_get_def)
  have n: "''firstName'' \<notin> inherited_names"
    by (simp add: inherited_names_def Object_prototype_def)
  note c10 = C10_falsy_translation_is_absent
               [OF f, of 0 "[(''firstName'', JStr ''A''), (''lastName'', JStr ''B'')]"]
  have a: \<open>update_col [(''firstName'', JStr []), (''lastName'', JStr ''last_name'')] ''firstName'' 0
             = ''"firstName"=$1''\<close>
    using c10 [THEN conjunct1] by (simp add: decimal_small digit_char_def)
  have b: "sqlForPartialUpdate [(''firstName'', JStr ''A''), (''lastName'', JStr ''B'')]
         [(''firstName'', JStr []), (''lastName'', JStr ''last_name'')]
       = sqlForPartialUpdate [(''firstName'', JStr ''A''), (''lastName'', JStr ''B'')]
           [(''lastName'', JStr ''last_name'')]"
    using c10 [THEN conjunct2] n by (simp add: prop_delete_def)
  show ?thesis
    by (intro conjI) (rule f n a b)+
qed

text \<open>
  Claim C10 as stated has the builder behave, at a falsy entry, exactly as if the
  entry were absent. The table \<open>{toString: ""}\<close> makes the column of the update
  \<open>{toString: 1}\<close> the name \<open>toString\<close>; without the entry the read
  \<open>jsToSql["toString"]\<close> finds the inherited function and the column is its string
  form.
\<close>

theorem C10_counterexample_inherited_name:
  \<open>\<not> truthy (prop_get [(''toString'', JStr [])] ''toString'')
   \<and> sqlForPartialUpdate [(''toString'', JNum 1)] [(''toString'', JStr [])]
       = Inr \<lparr>setCols = ''"toString"=$1'', values' = [JNum 1]\<rparr>
   \<and> sqlForPartialUpdate [(''toString'', JNum 1)] []
       = Inr \<lparr>setCols = ''"function toString() { [native code] }"=$1'', values' = [JNum 1]\<rparr>
   \<and> sqlForPartialUpdate [(''toString'', JNum 1)] [(''toString'', JStr [])]
       \<noteq> sqlForPartialUpdate [(''toString'', JNum 1)] []\<close>
  by (simp add: sqlForPartialUpdate_def update_col_def eval_defs decimal_small)

section \<open>The hasEquity filter of Job.findAll\<close>

lemma indexOf_nth:
  "distinct xs \<Longrightarrow> i < length xs \<Longrightarrow> indexOf xs (xs ! i) = int i"
proof (induction xs arbitrary: i)
  case Nil
  then show ?case by simp
next
  case (Cons x xs)
  show ?case
  proof (cases i)
    case 0
    then show ?thesis by simp
  next
    case (Suc j)
    with Cons.prems have j: "j < length xs" and d: "distinct xs" and ne: "xs ! j \<noteq> x"
      by auto
    from Cons.IH [OF d j] have "indexOf xs (xs ! j) = int j" .
    with Suc ne show ?thesis by (simp add: Let_def)
  qed
qed

lemma filter_value_at:
  assumes "distinct (map fst filters)" "idx < length filters" "filters ! idx = (key, v)"
  shows "array_get (Object_values filters) (indexOf (Object_keys filters) key) = v"
proof -
  have "Object_keys filters ! idx = key"
    using assms by (simp add: Object_keys_def)
  with indexOf_nth [of "Object_keys filters" idx] assms
  have "indexOf (Object_keys filters) key = int idx"
    by (simp add: Object_keys_def)
  then show ?thesis
    using assms by (simp add: array_get_def Object_values_def)
qed

text \<open>
  One round of the loop. In a jobs filter spec (an object, so with distinct keys)
  that holds the key \<open>hasEquity\<close> with value \<open>v\<close> at position \<open>idx\<close>, the round
  for that key appends the predicate \<open>equity>'0'\<close> to the conditions when \<open>v\<close> is
  truthy and nothing when it is falsy; in both cases the \<open>values\<close> array is left as
  it was, and the predicate holds no placeholder.
\<close>

lemma hasEquity_round:
  assumes "distinct (map fst filters)" "idx < length filters"
      and "filters ! idx = (''hasEquity'', v)"
  shows "job_cond (Object_keys filters) (Object_values filters) idx ''hasEquity'' (arr, vs)
           = (if truthy v then arr @ [''equity>'0'' @ [CHR 0x27]] else arr, vs)
         \<and> placeholders (''equity>'0'' @ [CHR 0x27]) = []"
  using filter_value_at [OF assms]
  by (simp add: job_cond_def)

text \<open>
  Claim C8. A \<open>hasEquity\<close> entry should take no parameter slot and, when its value
  is falsy, leave no trace in the statement. In the statement \<open>Job.findAll\<close>
  builds it does both. For \<open>{hasEquity: false}\<close> the keyword \<open>WHERE\<close> is
  prepended with no condition after it, so the query differs from the one for the
  empty spec. For \<open>{hasEquity: false, minSalary: 5}\<close> the entry takes the number
  \<open>1\<close>: the only placeholder is \<open>$2\<close> with the single parameter \<open>5\<close>, where the
  spec \<open>{minSalary: 5}\<close> gives \<open>$1\<close>.
\<close>

theorem C8_hasEquity_false_leaves_trace:
  "Job_findAll_statement [(''filters'', [(''hasEquity'', JBool False)])]
     = Inr \<lparr>query_text = job_query ''WHERE '', query_values = Some []\<rparr>
   \<and> Job_findAll_statement [(''filters'', [])]
     = Inr \<lparr>query_text = job_query [], query_values = Some []\<rparr>
   \<and> job_query ''WHERE '' \<noteq> job_query []
   \<and> Job_findAll_statement [(''filters'', [(''hasEquity'', JBool False), (''minSalary'', JNum 5)])]
     = Inr \<lparr>query_text = job_query ''WHERE salary>=$2'', query_values = Some [JNum 5]\<rparr>
   \<and> Job_findAll_statement [(''filters'', [(''minSalary'', JNum 5)])]
     = Inr \<lparr>query_text = job_query ''WHERE salary>=$1'', query_values = Some [JNum 5]\<rparr>"
  by (simp add: Job_findAll_statement_def job_conds_def job_cond_def eval_defs decimal_small
        job_query_def)

section \<open>Update by key\<close>

lemma placeholders_no_dollar: "CHR ''$'' \<notin> set s \<Longrightarrow> placeholders s = []"
  by (induction s) auto

lemma placeholders_key_suffix:
  assumes "CHR ''$'' \<notin> set suffix" "suffix = [] \<or> \<not> is_digit (hd suffix)"
  shows "placeholders (pre @ CHR ''$'' # decimal k @ suffix) = placeholders pre @ [k]"
proof -
  have "placeholders (pre @ CHR ''$'' # decimal k @ suffix)
          = placeholders pre @ placeholders (CHR ''$'' # decimal k @ suffix)"
    by (rule placeholders_append) (simp add: is_digit_def)
  also have "placeholders (CHR ''$'' # decimal k @ suffix) = k # placeholders suffix"
    using assms(2) by (rule placeholders_dollar_decimal)
  also have "placeholders suffix = []"
    using assms(1) by (rule placeholders_no_dollar)
  finally show ?thesis .
qed

lemma company_update_sql_split:
  \<open>company_update_sql sc (''$'' @ decimal k) =
     (''UPDATE companies \<newline>                      SET '' @ sc
        @ '' \<newline>                      WHERE handle = '')
     @ CHR ''$'' # decimal k
     @ '' \<newline>                      RETURNING handle, \<newline>                                name, \<newline>                                description, \<newline>                                num_employees AS "numEmployees", \<newline>                                logo_url AS "logoUrl"''\<close>
  by (simp add: company_update_sql_def)

lemma company_update_sql_placeholders:
  "placeholders (company_update_sql sc (''$'' @ decimal k)) \<noteq> []
   \<and> last (placeholders (company_update_sql sc (''$'' @ decimal k))) = k"
proof -
  have "\<exists>ps. placeholders (company_update_sql sc (''$'' @ decimal k)) = ps @ [k]"
    unfolding company_update_sql_split
    by (rule exI, rule placeholders_key_suffix) (simp_all add: is_digit_def)
  then show ?thesis by auto
qed

lemma user_update_sql_split:
  \<open>user_update_sql sc (''$'' @ decimal k) =
     (''UPDATE users \<newline>                      SET '' @ sc
        @ '' \<newline>                      WHERE username = '')
     @ CHR ''$'' # decimal k
     @ '' \<newline>                      RETURNING username,\<newline>                                first_name AS "firstName",\<newline>                                last_name AS "lastName",\<newline>                                email,\<newline>                                is_admin AS "isAdmin"''\<close>
  by (simp add: user_update_sql_def)

lemma user_update_sql_placeholders:
  "placeholders (user_update_sql sc (''$'' @ decimal k)) \<noteq> []
   \<and> last (placeholders (user_update_sql sc (''$'' @ decimal k))) = k"
proof -
  have "\<exists>ps. placeholders (user_update_sql sc (''$'' @ decimal k)) = ps @ [k]"
    unfolding user_update_sql_split
    by (rule exI, rule placeholders_key_suffix) (simp_all add: is_digit_def)
  then show ?thesis by auto
qed

lemma job_update_sql_split:
  \<open>job_update_sql sc (''$'' @ decimal k) =
     (''UPDATE jobs \<newline>                      SET '' @ sc
        @ '' \<newline>                      WHERE id = '')
     @ CHR ''$'' # decimal k
     @ '' \<newline>                      RETURNING id, title, salary, equity, company_handle''\<close>
  by (simp add: job_update_sql_def)

lemma job_update_sql_placeholders:
  "placeholders (job_update_sql sc (''$'' @ decimal k)) \<noteq> []
   \<and> last (placeholders (job_update_sql sc (''$'' @ decimal k))) = k"
proof -
  have "\<exists>ps. placeholders (job_update_sql sc (''$'' @ decimal k)) = ps @ [k]"
    unfolding job_update_sql_split
    by (rule exI, rule placeholders_key_suffix) (simp_all add: is_digit_def)
  then show ?thesis by auto
qed

lemma contains_append: "contains (a @ p @ b) p"
  unfolding contains_def list_ex_iff
  by (rule bexI [of _ "length a"]) simp_all

lemma company_update_sql_returning: "contains (company_update_sql sc k) ''RETURNING''"
proof -
  have \<open>company_update_sql sc k =
     (''UPDATE companies \<newline>                      SET '' @ sc
        @ '' \<newline>                      WHERE handle = '' @ k @ '' \<newline>                      '')
     @ ''RETURNING''
     @ '' handle, \<newline>                                name, \<newline>                                description, \<newline>                                num_employees AS "numEmployees", \<newline>                                logo_url AS "logoUrl"''\<close>
    by (simp add: company_update_sql_def)
  then show ?thesis by (simp only: contains_append)
qed

lemma user_update_sql_returning: "contains (user_update_sql sc k) ''RETURNING''"
proof -
  have \<open>user_update_sql sc k =
     (''UPDATE users \<newline>                      SET '' @ sc
        @ '' \<newline>                      WHERE username = '' @ k @ '' \<newline>                      '')
     @ ''RETURNING''
     @ '' username,\<newline>                                first_name AS "firstName",\<newline>                                last_name AS "lastName",\<newline>                                email,\<newline>                                is_admin AS "isAdmin"''\<close>
    by (simp add: user_update_sql_def)
  then show ?thesis by (simp only: contains_append)
qed

lemma job_update_sql_returning: "contains (job_update_sql sc k) ''RETURNING''"
proof -
  have \<open>job_update_sql sc k =
     (''UPDATE jobs \<newline>                      SET '' @ sc
        @ '' \<newline>                      WHERE id = '' @ k @ '' \<newline>                      '')
     @ ''RETURNING''
     @ '' id, title, salary, equity, company_handle''\<close>
    by (simp add: job_update_sql_def)
  then show ?thesis by (simp only: contains_append)
qed

lemma truthy_prop_get_key:
  "k \<notin> inherited_names \<Longrightarrow> truthy (prop_get ob k) \<Longrightarrow> k \<in> set (map fst ob)"
  by (auto simp: prop_get_def not_inherited split: option.splits dest: map_of_SomeD
           intro: rev_image_eqI)

lemma length_prop_set: "k \<in> set (map fst ob) \<Longrightarrow> length (prop_set ob k v) = length ob"
  by (simp add: prop_set_def)

lemma values_length:
  "sqlForPartialUpdate dataToUpdate jsToSql = Inr r \<Longrightarrow> length (values' r) = length dataToUpdate"
  by (auto simp: sqlForPartialUpdate_def Object_keys_def Object_values_def Let_def
           split: if_splits)

lemma sqlForPartialUpdate_succeeds:
  "dataToUpdate \<noteq> [] \<Longrightarrow> \<exists>r. sqlForPartialUpdate dataToUpdate jsToSql = Inr r"
  by (simp add: sqlForPartialUpdate_def Object_keys_def Let_def)

lemma Company_update_statement_ok:
  assumes "data \<noteq> []"
  shows "\<exists>s sc. Company_update_statement handle data = Inr s
           \<and> query_text s = company_update_sql sc (''$'' @ decimal (length data + 1))
           \<and> key_bound_last s handle (length data)"
proof -
  from sqlForPartialUpdate_succeeds [OF assms]
  obtain r where r: "sqlForPartialUpdate data
      [(''numEmployees'', JStr ''num_employees''), (''logoUrl'', JStr ''logo_url'')] = Inr r"
    by blast
  have len: "length (values' r) = length data" using r by (rule values_length)
  let ?s = "\<lparr>query_text = company_update_sql (setCols r) (''$'' @ decimal (length data + 1)),
             query_values = Some (values' r @ [handle])\<rparr>"
  have "Company_update_statement handle data = Inr ?s"
    using r len by (simp add: Company_update_statement_def)
  moreover have "key_bound_last ?s handle (length data)"
    using len company_update_sql_placeholders [of "setCols r" "length data + 1"]
    by (simp add: key_bound_last_def nth_append)
  ultimately show ?thesis by (intro exI [of _ ?s] exI [of _ "setCols r"]) simp
qed

lemma Job_update_statement_ok:
  assumes "data \<noteq> []"
  shows "\<exists>s sc. Job_update_statement jid data = Inr s
           \<and> query_text s = job_update_sql sc (''$'' @ decimal (length data + 1))
           \<and> key_bound_last s jid (length data)"
proof -
  from sqlForPartialUpdate_succeeds [OF assms]
  obtain r where r: "sqlForPartialUpdate data
      [(''title'', JStr ''title''), (''salary'', JStr ''salary''),
       (''equity'', JStr ''equity'')] = Inr r"
    by blast
  have len: "length (values' r) = length data" using r by (rule values_length)
  let ?s = "\<lparr>query_text = job_update_sql (setCols r) (''$'' @ decimal (length data + 1)),
             query_values = Some (values' r @ [jid])\<rparr>"
  have "Job_update_statement jid data = Inr ?s"
    using r len by (simp add: Job_update_statement_def)
  moreover have "key_bound_last ?s jid (length data)"
    using len job_update_sql_placeholders [of "setCols r" "length data + 1"]
    by (simp add: key_bound_last_def nth_append)
  ultimately show ?thesis by (intro exI [of _ ?s] exI [of _ "setCols r"]) simp
qed

lemma User_update_statement_ok:
  assumes "data \<noteq> []"
  shows "\<exists>s sc. User_update_statement hash uname data = Inr s
           \<and> query_text s = user_update_sql sc (''$'' @ decimal (length data + 1))
           \<and> key_bound_last s uname (length data)"
proof -
  define data1 where "data1 = (if truthy (prop_get data ''password'')
                   then prop_set data ''password'' (hash (prop_get data ''password''))
                   else data)"
  have len1: "length data1 = length data"
    using length_prop_set [OF truthy_prop_get_key, of "''password''" data]
    by (simp add: data1_def inherited_names_def Object_prototype_def)
  with assms have ne: "data1 \<noteq> []" by auto
  from sqlForPartialUpdate_succeeds [OF ne]
  obtain r where r: "sqlForPartialUpdate data1
      [(''firstName'', JStr ''first_name''), (''lastName'', JStr ''last_name''),
       (''isAdmin'', JStr ''is_admin'')] = Inr r"
    by blast
  have len: "length (values' r) = length data" using values_length [OF r] len1 by simp
  let ?s = "\<lparr>query_text = user_update_sql (setCols r) (''$'' @ decimal (length data + 1)),
             query_values = Some (values' r @ [uname])\<rparr>"
  have "User_update_statement hash uname data = Inr ?s"
    using r len by (simp add: User_update_statement_def data1_def [symmetric])
  moreover have "key_bound_last ?s uname (length data)"
    using len user_update_sql_placeholders [of "setCols r" "length data + 1"]
    by (simp add: key_bound_last_def nth_append)
  ultimately show ?thesis by (intro exI [of _ ?s] exI [of _ "setCols r"]) simp
qed

text \<open>
  Claim C7. For a non-empty sparse update, \<open>Company.update\<close>, \<open>User.update\<close> and
  \<open>Job.update\<close> build a statement from the update template of the entity, whose
  WHERE clause compares the key column with the placeholder \<open>$<n+1>\<close>, \<open>n\<close> being
  the number of SET parameters, and which ends with a RETURNING clause; the key is the
  last element of the parameter list and \<open>$<n+1>\<close> is the last placeholder of the
  statement. When the storage engine returns no row the operation fails with
  \<open>NotFoundError\<close>; otherwise it returns the first row (without its \<open>password\<close>
  property for users).
\<close>

theorem C7_update_by_key:
  assumes "data \<noteq> []"
  shows "(\<exists>s sc. Company_update_statement key data = Inr s
            \<and> query_text s = company_update_sql sc (''$'' @ decimal (length data + 1))
            \<and> key_bound_last s key (length data)
            \<and> contains (query_text s) ''RETURNING''
            \<and> (db (query_text s) (query_values s) = [] \<longrightarrow>
                 Company_update db key data = Inl (NotFoundError (''No company: '' @ toString key)))
            \<and> (db (query_text s) (query_values s) \<noteq> [] \<longrightarrow>
                 Company_update db key data = Inr (hd (db (query_text s) (query_values s)))))
       \<and> (\<exists>s sc. User_update_statement hash key data = Inr s
            \<and> query_text s = user_update_sql sc (''$'' @ decimal (length data + 1))
            \<and> key_bound_last s key (length data)
            \<and> contains (query_text s) ''RETURNING''
            \<and> (db (query_text s) (query_values s) = [] \<longrightarrow>
                 User_update hash db key data = Inl (NotFoundError (''No user: '' @ toString key)))
            \<and> (db (query_text s) (query_values s) \<noteq> [] \<longrightarrow>
                 User_update hash db key data
                   = Inr (prop_delete (hd (db (query_text s) (query_values s))) ''password'')))
       \<and> (\<exists>s sc. Job_update_statement key data = Inr s
            \<and> query_text s = job_update_sql sc (''$'' @ decimal (length data + 1))
            \<and> key_bound_last s key (length data)
            \<and> contains (query_text s) ''RETURNING''
            \<and> (db (query_text s) (query_values s) = [] \<longrightarrow>
                 Job_update db key data = Inl (NotFoundError (''No job: '' @ toString key)))
            \<and> (db (query_text s) (query_values s) \<noteq> [] \<longrightarrow>
                 Job_update db key data = Inr (hd (db (query_text s) (query_values s)))))"
proof (intro conjI)
  from Company_update_statement_ok [OF assms, of key]
  obtain s sc where s: "Company_update_statement key data = Inr s"
    and q: "query_text s = company_update_sql sc (''$'' @ decimal (length data + 1))"
    and k: "key_bound_last s key (length data)" by blast
  have r: "contains (query_text s) ''RETURNING''"
    by (simp only: q company_update_sql_returning)
  have "db (query_text s) (query_values s) = [] \<longrightarrow>
          Company_update db key data = Inl (NotFoundError (''No company: '' @ toString key))"
    using s by (simp add: Company_update_def)
  moreover have "db (query_text s) (query_values s) \<noteq> [] \<longrightarrow>
          Company_update db key data = Inr (hd (db (query_text s) (query_values s)))"
    using s by (simp add: Company_update_def split: list.splits)
  ultimately show "\<exists>s sc. Company_update_statement key data = Inr s
            \<and> query_text s = company_update_sql sc (''$'' @ decimal (length data + 1))
            \<and> key_bound_last s key (length data)
            \<and> contains (query_text s) ''RETURNING''
            \<and> (db (query_text s) (query_values s) = [] \<longrightarrow>
                 Company_update db key data = Inl (NotFoundError (''No company: '' @ toString key)))
            \<and> (db (query_text s) (query_values s) \<noteq> [] \<longrightarrow>
                 Company_update db key data = Inr (hd (db (query_text s) (query_values s))))"
    using s q k r by blast
next
  from User_update_statement_ok [OF assms, of hash key]
  obtain s sc where s: "User_update_statement hash key data = Inr s"
    and q: "query_text s = user_update_sql sc (''$'' @ decimal (length data + 1))"
    and k: "key_bound_last s key (length data)" by blast
  have r: "contains (query_text s) ''RETURNING''"
    by (simp only: q user_update_sql_returning)
  have "db (query_text s) (query_values s) = [] \<longrightarrow>
          User_update hash db key data = Inl (NotFoundError (''No user: '' @ toString key))"
    using s by (simp add: User_update_def)
  moreover have "db (query_text s) (query_values s) \<noteq> [] \<longrightarrow>
          User_update hash db key data
            = Inr (prop_delete (hd (db (query_text s) (query_values s))) ''password'')"
    using s by (simp add: User_update_def split: list.splits)
  ultimately show "\<exists>s sc. User_update_statement hash key data = Inr s
            \<and> query_text s = user_update_sql sc (''$'' @ decimal (length data + 1))
            \<and> key_bound_last s key (length data)
            \<and> contains (query_text s) ''RETURNING''
            \<and> (db (query_text s) (query_values s) = [] \<longrightarrow>
                 User_update hash db key data = Inl (NotFoundError (''No user: '' @ toString key)))
            \<and> (db (query_text s) (query_values s) \<noteq> [] \<longrightarrow>
                 User_update hash db key data
                   = Inr (prop_delete (hd (db (query_text s) (query_values s))) ''password''))"
    using s q k r by blast
next
  from Job_update_statement_ok [OF assms, of key]
  obtain s sc where s: "Job_update_statement key data = Inr s"
    and q: "query_text s = job_update_sql sc (''$'' @ decimal (length data + 1))"
    and k: "key_bound_last s key (length data)" by blast
  have r: "contains (query_text s) ''RETURNING''"
    by (simp only: q job_update_sql_returning)
  have "db (query_text s) (query_values s) = [] \<longrightarrow>
          Job_update db key data = Inl (NotFoundError (''No job: '' @ toString key))"
    using s by (simp add: Job_update_def)
  moreover have "db (query_text s) (query_values s) \<noteq> [] \<longrightarrow>
          Job_update db key data = Inr (hd (db (query_text s) (query_values s)))"
    using s by (simp add: Job_update_def split: list.splits)
  ultimately show "\<exists>s sc. Job_update_statement key data = Inr s
            \<and> query_text s = job_update_sql sc (''$'' @ decimal (length data + 1))
            \<and> key_bound_last s key (length data)
            \<and> contains (query_text s) ''RETURNING''
            \<and> (db (query_text s) (query_values s) = [] \<longrightarrow>
                 Job_update db key data = Inl (NotFoundError (''No job: '' @ toString key)))
            \<and> (db (query_text s) (query_values s) \<noteq> [] \<longrightarrow>
                 Job_update db key data = Inr (hd (db (query_text s) (query_values s))))"
    using s q k r by blast
qed

text \<open>
  An update of one field against a storage engine that affects no row, and against
  one that returns the updated row.
\<close>

theorem C7_update_by_key_witness:
  "[(''name'', JStr ''N'')] \<noteq> []
   \<and> Company_update (\<lambda>q p. []) (JStr ''c9'') [(''name'', JStr ''N'')]
       = Inl (NotFoundError ''No company: c9'')
   \<and> User_update (\<lambda>v. JStr ''hashed'') (\<lambda>q p. []) (JStr ''c9'') [(''name'', JStr ''N'')]
       = Inl (NotFoundError ''No user: c9'')
   \<and> Job_update (\<lambda>q p. []) (JStr ''c9'') [(''name'', JStr ''N'')]
       = Inl (NotFoundError ''No job: c9'')
   \<and> Company_update (\<lambda>q p. [[(''handle'', JStr ''c1''), (''name'', JStr ''N'')]]) (JStr ''c1'')
         [(''name'', JStr ''N'')]
       = Inr [(''handle'', JStr ''c1''), (''name'', JStr ''N'')]"
proof -
  have ne: "[(''name'', JStr ''N'')] \<noteq> []" by simp
  note c7 = C7_update_by_key [OF ne, of "JStr ''c9''" "\<lambda>q p. []" "\<lambda>v. JStr ''hashed''"]
  note c7' = C7_update_by_key [OF ne, of "JStr ''c1''"
               "\<lambda>q p. [[(''handle'', JStr ''c1''), (''name'', JStr ''N'')]]" "\<lambda>v. JStr ''hashed''"]
  have a: "Company_update (\<lambda>q p. []) (JStr ''c9'') [(''name'', JStr ''N'')]
       = Inl (NotFoundError ''No company: c9'')"
    using c7 [THEN conjunct1] by auto
  have b: "User_update (\<lambda>v. JStr ''hashed'') (\<lambda>q p. []) (JStr ''c9'') [(''name'', JStr ''N'')]
       = Inl (NotFoundError ''No user: c9'')"
    using c7 [THEN conjunct2, THEN conjunct1] by auto
  have c: "Job_update (\<lambda>q p. []) (JStr ''c9'') [(''name'', JStr ''N'')]
       = Inl (NotFoundError ''No job: c9'')"
    using c7 [THEN conjunct2, THEN conjunct2] by auto
  have d: "Company_update (\<lambda>q p. [[(''handle'', JStr ''c1''), (''name'', JStr ''N'')]]) (JStr ''c1'')
         [(''name'', JStr ''N'')]
       = Inr [(''handle'', JStr ''c1''), (''name'', JStr ''N'')]"
    using c7' [THEN conjunct1] by auto
  show ?thesis by (intro conjI) (rule ne a b c d)+
qed

section \<open>Unrecognised filter keys\<close>






section \<open>The shape of the list queries\<close>

lemma company_query_parts:
  "company_query [] w = company_projection False @ w @ company_order_by"
  \<open>company_query ''num_employees AS "numEmployees",'' w
     = company_projection True @ w @ company_order_by\<close>
  by (simp_all add: company_query_def company_projection_def company_order_by_def)

lemma job_query_parts: "job_query w = job_projection @ w @ job_order_by"
  by (simp add: job_query_def job_projection_def job_order_by_def)

lemma Company_findAll_statement_shape:
  assumes "Company_findAll_statement body = Inr s"
  shows "query_text s =
           company_projection (''minEmployees'' \<in> set (Object_keys (filter_spec body))
                                \<or> ''maxEmployees'' \<in> set (Object_keys (filter_spec body)))
           @ where_fragment (filter_spec body) (company_conds (Object_keys (filter_spec body)))
           @ company_order_by"
proof (cases "body = []")
  case True
  with assms show ?thesis
    by (auto simp: Company_findAll_statement_def filter_spec_def where_fragment_def
          Object_keys_def company_query_parts)
next
  case False
  with assms obtain filters where f: "map_of body ''filters'' = Some filters"
    by (auto simp: Company_findAll_statement_def split: option.splits)
  show ?thesis
  proof (cases "filters = []")
    case True
    with assms f False show ?thesis
      by (auto simp: Company_findAll_statement_def filter_spec_def where_fragment_def
            Object_keys_def company_query_parts)
  next
    case ne: False
    with assms f False show ?thesis
      by (auto simp: Company_findAll_statement_def filter_spec_def where_fragment_def
            Object_keys_def Let_def company_query_parts)
  qed
qed

lemma Job_findAll_statement_shape:
  assumes "Job_findAll_statement body = Inr s"
  shows "query_text s =
           job_projection
           @ where_fragment (filter_spec body) (fst (job_conds (filter_spec body)))
           @ job_order_by"
proof (cases "body = []")
  case True
  with assms show ?thesis
    by (auto simp: Job_findAll_statement_def filter_spec_def where_fragment_def
          job_query_parts)
next
  case False
  with assms obtain filters where f: "map_of body ''filters'' = Some filters"
    by (auto simp: Job_findAll_statement_def split: option.splits)
  show ?thesis
  proof (cases "filters = []")
    case True
    with assms f False show ?thesis
      by (auto simp: Job_findAll_statement_def filter_spec_def where_fragment_def
            Object_keys_def job_query_parts)
  next
    case ne: False
    with assms f False show ?thesis
      by (auto simp: Job_findAll_statement_def filter_spec_def where_fragment_def
            Object_keys_def Let_def job_query_parts split: prod.splits)
  qed
qed

lemma findAll_statement_defined:
  assumes "body = [] \<or> map_of body ''filters'' \<noteq> None"
  shows "\<not> isl (Company_findAll_statement body) \<and> \<not> isl (Job_findAll_statement body)"
  using assms
  by (auto simp: Company_findAll_statement_def Job_findAll_statement_def Let_def
           split: prod.splits if_splits)

text \<open>
  Claim C9, amended. Whenever the body is empty or has a \<open>filters\<close> property, both
  \<open>findAll\<close> operations build a statement. The text of a list query is the
  entity's projection, then the filter fragment (the empty string when the filter
  spec has zero entries), then the entity's ORDER BY clause: by \<open>name\<close> for
  companies, by \<open>id\<close> for jobs, by \<open>users.username\<close> for users (whose query takes
  no filter). The projection is fixed for jobs and users; for companies it holds the
  \<open>num_employees\<close> column exactly when the spec has a \<open>minEmployees\<close> or
  \<open>maxEmployees\<close> key.
\<close>

theorem C9_list_query_shape:
  "(body = [] \<or> map_of body ''filters'' \<noteq> None \<longrightarrow>
      \<not> isl (Company_findAll_statement body) \<and> \<not> isl (Job_findAll_statement body))
   \<and> (Company_findAll_statement body = Inr s \<longrightarrow>
        query_text s =
          company_projection (''minEmployees'' \<in> set (Object_keys (filter_spec body))
                               \<or> ''maxEmployees'' \<in> set (Object_keys (filter_spec body)))
          @ where_fragment (filter_spec body) (company_conds (Object_keys (filter_spec body)))
          @ company_order_by)
   \<and> (Job_findAll_statement body = Inr s \<longrightarrow>
        query_text s =
          job_projection
          @ where_fragment (filter_spec body) (fst (job_conds (filter_spec body)))
          @ job_order_by)
   \<and> user_query = user_projection @ where_fragment [] [] @ user_order_by
   \<and> where_fragment [] conds = []"
proof (intro conjI impI)
  show "user_query = user_projection @ where_fragment [] [] @ user_order_by"
    by (simp add: user_query_def user_projection_def user_order_by_def where_fragment_def)
  show "where_fragment [] conds = []"
    by (simp add: where_fragment_def)
qed (simp_all add: findAll_statement_defined Company_findAll_statement_shape
       Job_findAll_statement_shape)

text \<open>
  A companies query filtered by name and minimum employees, and a jobs query
  filtered by title.
\<close>

theorem C9_list_query_witness:
  "map_of [(''filters'', [(''nameLike'', JStr ''%net%''), (''minEmployees'', JNum 2)])] ''filters''
     \<noteq> None
   \<and> \<not> isl (Company_findAll_statement
              [(''filters'', [(''nameLike'', JStr ''%net%''), (''minEmployees'', JNum 2)])])
   \<and> Company_findAll_statement
         [(''filters'', [(''nameLike'', JStr ''%net%''), (''minEmployees'', JNum 2)])]
       = Inr \<lparr>query_text = company_projection True
                             @ ''WHERE name ILIKE $1 AND num_employees>=$2''
                             @ company_order_by,
              query_values = Some [JStr ''%net%'', JNum 2]\<rparr>
   \<and> Job_findAll_statement [(''filters'', [(''titleLike'', JStr ''%dev%'')])]
       = Inr \<lparr>query_text = job_projection @ ''WHERE title ILIKE $1'' @ job_order_by,
              query_values = Some [JStr ''%dev%'']\<rparr>"
proof -
  let ?cb = "[(''filters'', [(''nameLike'', JStr ''%net%''), (''minEmployees'', JNum 2)])]"
  let ?jb = "[(''filters'', [(''titleLike'', JStr ''%dev%'')])]"
  have m: "map_of ?cb ''filters'' \<noteq> None" by simp
  obtain cs where cs: "Company_findAll_statement ?cb = Inr cs"
    and cv: "query_values cs = Some [JStr ''%net%'', JNum 2]"
    by (simp add: Company_findAll_statement_def Object_keys_def Object_values_def)
  obtain js where js: "Job_findAll_statement ?jb = Inr js"
    and jv: "query_values js = Some [JStr ''%dev%'']"
    by (simp add: Job_findAll_statement_def job_conds_def job_cond_def eval_defs)
  have d: "\<not> isl (Company_findAll_statement ?cb)"
    using C9_list_query_shape [of ?cb cs, THEN conjunct1] m by blast
  have ct: "query_text cs = company_projection True
              @ ''WHERE name ILIKE $1 AND num_employees>=$2'' @ company_order_by"
    using C9_list_query_shape [of ?cb cs, THEN conjunct2, THEN conjunct1] cs
    by (simp add: filter_spec_def where_fragment_def Object_keys_def company_conds_def
          company_cond_def decimal_small digit_char_def)
  have jt: "query_text js = job_projection @ ''WHERE title ILIKE $1'' @ job_order_by"
    using C9_list_query_shape [of ?jb js, THEN conjunct2, THEN conjunct2, THEN conjunct1] js
    by (simp add: filter_spec_def where_fragment_def job_conds_def job_cond_def eval_defs
          decimal_small)
  have c: "cs = \<lparr>query_text = company_projection True
                             @ ''WHERE name ILIKE $1 AND num_employees>=$2''
                             @ company_order_by,
              query_values = Some [JStr ''%net%'', JNum 2]\<rparr>"
    using ct cv by simp
  have j: "js = \<lparr>query_text = job_projection @ ''WHERE title ILIKE $1'' @ job_order_by,
              query_values = Some [JStr ''%dev%'']\<rparr>"
    using jt jv by simp
  show ?thesis
    using m d cs js c j by simp
qed

text \<open>
  Claim C9 as stated has one fixed projection per entity. The companies query
  without filters and the one filtered by \<open>minEmployees\<close> start with different
  projections.
\<close>

theorem C9_counterexample_projection_varies:
  "Company_findAll_statement []
     = Inr \<lparr>query_text = company_projection False @ [] @ company_order_by,
            query_values = None\<rparr>
   \<and> Company_findAll_statement [(''filters'', [(''minEmployees'', JNum 1)])]
     = Inr \<lparr>query_text = company_projection True @ ''WHERE num_employees>=$1'' @ company_order_by,
            query_values = Some [JNum 1]\<rparr>
   \<and> company_projection False \<noteq> company_projection True"
  by (simp add: Company_findAll_statement_def company_conds_def company_cond_def
        eval_defs decimal_small company_query_parts)
     (simp add: company_projection_def)

section \<open>The row aggregator of User.findAll\<close>

lemma array_read_update_other:
  "a \<noteq> b \<Longrightarrow> array_read (h[b := xs]) a = array_read h a"
  by (simp add: array_read_def)

lemma array_read_update_same:
  "a < length h \<Longrightarrow> array_read (h[a := xs]) a = xs"
  by (simp add: array_read_def)

lemma array_read_append:
  "a < length h \<Longrightarrow> array_read (h @ [xs]) a = array_read h a"
  by (simp add: array_read_def nth_append)

lemma forEach_step_flush:
  assumes "flushes rows i r"
  shows "store (forEach_step rows J (i, r) st)
           = ((store st)[J := array_read (store st) J @ [job_id r]]
                @ [array_read ((store st)[J := array_read (store st) J @ [job_id r]]) J])
              [J := []]"
    and "\<exists>e. allUsers (forEach_step rows J (i, r) st) = allUsers st @ [e]
              \<and> jobs e = length (store st) \<and> username e = username r"
  using assms
  by (simp_all add: forEach_step_def flushes_def array_push_def array_new_def
        array_truncate_def Let_def)

lemma forEach_step_keep:
  assumes "\<not> flushes rows i r"
  shows "forEach_step rows J (i, r) st
           = st\<lparr>store := (store st)[J := array_read (store st) J @ [job_id r]]\<rparr>"
  using assms
  by (simp add: forEach_step_def flushes_def array_push_def Let_def)

lemma flush_step_facts:
  assumes inv: "agg_inv J st" and fl: "flushes rows i r"
  shows "agg_inv J (forEach_step rows J (i, r) st)"
    and "entity_view (forEach_step rows J (i, r) st)
           = entity_view st @ [(username r, array_read (store st) J @ [job_id r])]"
    and "array_read (store (forEach_step rows J (i, r) st)) J = []"
proof -
  let ?h = "store st" and ?st' = "forEach_step rows J (i, r) st"
  let ?acc = "array_read ?h J @ [job_id r]"
  from inv have J: "J < length ?h"
    and old: "\<And>u. u \<in> set (allUsers st) \<Longrightarrow> jobs u < length ?h \<and> jobs u \<noteq> J"
    and dist: "distinct (map jobs (allUsers st))"
    by (auto simp: agg_inv_def)
  have copy: "array_read (?h[J := ?acc]) J = ?acc"
    using J by (rule array_read_update_same)
  have st: "store ?st' = (?h[J := ?acc] @ [?acc])[J := []]"
    using forEach_step_flush(1) [OF fl, of J st] copy by simp
  from forEach_step_flush(2) [OF fl, of J st]
  obtain e where e: "allUsers ?st' = allUsers st @ [e]" "jobs e = length ?h" "username e = username r"
    by blast
  have len: "length (store ?st') = length ?h + 1" by (simp add: st)
  have rd_old: "array_read (store ?st') a = array_read ?h a" if "a < length ?h" "a \<noteq> J" for a
    using that by (simp add: st array_read_def nth_append)
  have rd_new: "array_read (store ?st') (length ?h) = ?acc"
    using J by (simp add: st array_read_def nth_append)
  have lt: "jobs u < length ?h \<and> jobs u \<noteq> J" if "u \<in> set (allUsers st)" for u
    using old that by blast
  have fresh: "length ?h \<notin> set (map jobs (allUsers st))"
    using lt by force
  show "agg_inv J ?st'"
    unfolding agg_inv_def
  proof (intro conjI ballI)
    show "J < length (store ?st')" using J len by simp
    show "distinct (map jobs (allUsers ?st'))"
      using dist fresh e by simp
    fix u assume "u \<in> set (allUsers ?st')"
    then have "u \<in> set (allUsers st) \<or> u = e" using e by auto
    then show "jobs u < length (store ?st')" and "jobs u \<noteq> J"
      using lt [of u] e J len by auto
  qed
  show "array_read (store ?st') J = []"
    using J by (simp add: st array_read_def)
  have "map (\<lambda>u. (username u, array_read (store ?st') (jobs u))) (allUsers st)
          = map (\<lambda>u. (username u, array_read ?h (jobs u))) (allUsers st)"
    using old by (intro map_cong refl) (simp add: rd_old)
  then show "entity_view ?st' = entity_view st @ [(username r, ?acc)]"
    using e rd_new by (simp add: entity_view_def)
qed

lemma keep_step_facts:
  assumes inv: "agg_inv J st" and fl: "\<not> flushes rows i r"
  shows "agg_inv J (forEach_step rows J (i, r) st)"
    and "entity_view (forEach_step rows J (i, r) st) = entity_view st"
    and "array_read (store (forEach_step rows J (i, r) st)) J
           = array_read (store st) J @ [job_id r]"
proof -
  let ?h = "store st" and ?st' = "forEach_step rows J (i, r) st"
  from inv have J: "J < length ?h"
    and old: "\<And>u. u \<in> set (allUsers st) \<Longrightarrow> jobs u < length ?h \<and> jobs u \<noteq> J"
    and dist: "distinct (map jobs (allUsers st))"
    by (auto simp: agg_inv_def)
  note st = forEach_step_keep [OF fl, of J st]
  show "agg_inv J ?st'"
    using J old dist by (auto simp: agg_inv_def st)
  show "array_read (store ?st') J = array_read ?h J @ [job_id r]"
    using J by (simp add: st array_read_update_same)
  have "map (\<lambda>u. (username u, array_read (?h[J := array_read ?h J @ [job_id r]]) (jobs u)))
            (allUsers st)
          = map (\<lambda>u. (username u, array_read ?h (jobs u))) (allUsers st)"
    using old by (intro map_cong refl) (simp add: array_read_update_other)
  then show "entity_view ?st' = entity_view st"
    by (simp add: entity_view_def st)
qed

text \<open>
  The loop invariant: started anywhere in the row sequence from a state that
  satisfies \<open>agg_inv\<close>, the remaining rounds keep the invariant, append to the
  entities the grouping of the remaining rows (the accumulator holding the children
  collected so far), and leave the accumulator empty.
\<close>

lemma fold_forEach_step:
  assumes "agg_inv J st"
  shows "agg_inv J (fold (forEach_step (pre @ rest) J) (enumerate (length pre) rest) st)
         \<and> entity_view (fold (forEach_step (pre @ rest) J) (enumerate (length pre) rest) st)
             = entity_view st @ group_rows (array_read (store st) J) rest
         \<and> (rest \<noteq> [] \<longrightarrow>
              array_read (store (fold (forEach_step (pre @ rest) J)
                                   (enumerate (length pre) rest) st)) J = [])"
  using assms
proof (induction rest arbitrary: pre st)
  case Nil
  then show ?case by simp
next
  case (Cons r rest)
  let ?rows = "pre @ r # rest"
  let ?st1 = "forEach_step ?rows J (length pre, r) st"
  have rows: "?rows = (pre @ [r]) @ rest" by simp
  have step: "fold (forEach_step ?rows J) (enumerate (length pre) (r # rest)) st
                = fold (forEach_step ((pre @ [r]) @ rest) J)
                    (enumerate (length (pre @ [r])) rest) ?st1"
    by simp
  show ?case
  proof (cases rest)
    case Nil
    have fl: "flushes ?rows (length pre) r"
      by (simp add: flushes_def Nil)
    from flush_step_facts [OF Cons.prems fl] Nil
    show ?thesis by simp
  next
    case (Cons r' rs)
    have nxt: "?rows ! (length pre + 1) = r'"
      by (simp add: Cons nth_append)
    have lt: "length pre + 1 < length ?rows"
      by (simp add: Cons)
    show ?thesis
    proof (cases "username r \<noteq> username r'")
      case True
      have fl: "flushes ?rows (length pre) r"
        using True nxt by (simp add: flushes_def)
      note f = flush_step_facts [OF Cons.prems fl]
      from Cons.IH [OF f(1), of "pre @ [r]"] f(2,3) True
      show ?thesis
        unfolding step by (simp add: Cons)
    next
      case False
      have fl: "\<not> flushes ?rows (length pre) r"
        using False nxt lt by (simp add: flushes_def)
      note k = keep_step_facts [OF Cons.prems fl]
      from Cons.IH [OF k(1), of "pre @ [r]"] k(2,3) False
      show ?thesis
        unfolding step by (simp add: Cons)
    qed
  qed
qed

lemma aggregate_rows_facts:
  "agg_inv 0 (aggregate_rows rows)"
  "entity_view (aggregate_rows rows) = group_rows [] rows"
  "array_read (store (aggregate_rows rows)) 0 = []"
proof -
  let ?st0 = "\<lparr>store = [[]], allUsers = []\<rparr>"
  have inv0: "agg_inv 0 ?st0" by (simp add: agg_inv_def)
  have agg: "aggregate_rows rows = fold (forEach_step ([] @ rows) 0) (enumerate (length ([]::user_row list)) rows) ?st0"
    by (simp add: aggregate_rows_def array_new_def)
  note f = fold_forEach_step [OF inv0, of "[]" rows]
  show "agg_inv 0 (aggregate_rows rows)" using f unfolding agg by blast
  show "entity_view (aggregate_rows rows) = group_rows [] rows"
    using f unfolding agg by (simp add: entity_view_def array_read_def)
  show "array_read (store (aggregate_rows rows)) 0 = []"
  proof (cases rows)
    case Nil
    then show ?thesis by (simp add: aggregate_rows_def array_new_def array_read_def)
  next
    case (Cons r rs)
    then show ?thesis using f unfolding agg by blast
  qed
qed

lemma grouping_example_run:
  "aggregate_rows grouping_example =
     \<lparr>store = [[], [JNum 1, JNum 2], [JNull]],
      allUsers =
        [\<lparr>username = JStr ''a'', firstName = JStr ''A'', lastName = JStr ''A'',
           email = JStr ''a@x'', isAdmin = JBool False, jobs = 1\<rparr>,
         \<lparr>username = JStr ''b'', firstName = JStr ''B'', lastName = JStr ''B'',
           email = JStr ''b@x'', isAdmin = JBool False, jobs = 2\<rparr>]\<rparr>"
  by (simp add: aggregate_rows_def grouping_example_def forEach_step_def array_new_def
        array_push_def array_read_def array_truncate_def)

text \<open>
  Claim C3, amended. For every ordered row sequence the entities returned by
  \<open>User.findAll\<close>, read through the store, are the grouping \<open>group_rows\<close> of the
  rows: the child value of every row, \<open>null\<close> included, is appended to the
  accumulator, one entity is emitted per run of rows with the same username, and the
  next run starts from the empty accumulator. At the end the accumulator is empty
  and no entity refers to it; each entity refers to an array of its own, so writing
  to the array of one entity changes what that entity holds and leaves the children
  of every other entity as they were.
\<close>

theorem C3_row_aggregation:
  "(let st = aggregate_rows rows; ents = allUsers st in
      entity_view st = group_rows [] rows
      \<and> array_read (store st) 0 = []
      \<and> (\<forall>u \<in> set ents. jobs u \<noteq> 0)
      \<and> (\<forall>i j. i < length ents \<longrightarrow> j < length ents \<longrightarrow> i \<noteq> j \<longrightarrow>
             array_read ((store st)[jobs (ents ! i) := xs]) (jobs (ents ! i)) = xs
             \<and> array_read ((store st)[jobs (ents ! i) := xs]) (jobs (ents ! j))
                 = array_read (store st) (jobs (ents ! j))))"
proof -
  let ?st = "aggregate_rows rows"
  let ?ents = "allUsers ?st"
  note f = aggregate_rows_facts [of rows]
  from f(1) have bound: "\<forall>u \<in> set ?ents. jobs u < length (store ?st) \<and> jobs u \<noteq> 0"
    and dist: "distinct (map jobs ?ents)"
    by (auto simp: agg_inv_def)
  have separate: "array_read ((store ?st)[jobs (?ents ! i) := xs]) (jobs (?ents ! i)) = xs
             \<and> array_read ((store ?st)[jobs (?ents ! i) := xs]) (jobs (?ents ! j))
                 = array_read (store ?st) (jobs (?ents ! j))"
    if "i < length ?ents" "j < length ?ents" "i \<noteq> j" for i j
  proof -
    have "map jobs ?ents ! i \<noteq> map jobs ?ents ! j"
      using nth_eq_iff_index_eq [OF dist, of i j] that by simp
    with that have ne: "jobs (?ents ! j) \<noteq> jobs (?ents ! i)" by simp
    from bound that have "jobs (?ents ! i) < length (store ?st)" by simp
    then show ?thesis
      using ne by (simp add: array_read_update_same array_read_update_other)
  qed
  show ?thesis
    unfolding Let_def using f(2,3) bound separate by blast
qed

text \<open>
  The grouping example of the specification: user \<open>a\<close> gets the jobs \<open>[1, 2]\<close>,
  user \<open>b\<close> gets \<open>[null]\<close>, and overwriting the list of the second entity leaves
  the list of the first one unchanged.
\<close>

theorem C3_grouping_witness:
  "entity_view (aggregate_rows grouping_example)
     = [(JStr ''a'', [JNum 1, JNum 2]), (JStr ''b'', [JNull])]
   \<and> map jobs (allUsers (aggregate_rows grouping_example)) = [1, 2]
   \<and> array_read ((store (aggregate_rows grouping_example))[2 := [JNum 7]]) 2 = [JNum 7]
   \<and> array_read ((store (aggregate_rows grouping_example))[2 := [JNum 7]]) 1 = [JNum 1, JNum 2]"
proof -
  note c3 = C3_row_aggregation [of grouping_example "[JNum 7]", unfolded Let_def]
  have ents: "map jobs (allUsers (aggregate_rows grouping_example)) = [1, 2]"
    by (simp add: grouping_example_run)
  have view: "entity_view (aggregate_rows grouping_example)
     = [(JStr ''a'', [JNum 1, JNum 2]), (JStr ''b'', [JNull])]"
    using c3 [THEN conjunct1] by (simp add: grouping_example_def)
  from c3 have "\<forall>i j. i < length (allUsers (aggregate_rows grouping_example)) \<longrightarrow>
       j < length (allUsers (aggregate_rows grouping_example)) \<longrightarrow> i \<noteq> j \<longrightarrow>
         array_read ((store (aggregate_rows grouping_example))
                       [jobs (allUsers (aggregate_rows grouping_example) ! i) := [JNum 7]])
           (jobs (allUsers (aggregate_rows grouping_example) ! i)) = [JNum 7]
         \<and> array_read ((store (aggregate_rows grouping_example))
                       [jobs (allUsers (aggregate_rows grouping_example) ! i) := [JNum 7]])
           (jobs (allUsers (aggregate_rows grouping_example) ! j))
           = array_read (store (aggregate_rows grouping_example))
               (jobs (allUsers (aggregate_rows grouping_example) ! j))"
    by blast
  from this [rule_format, of 1 0]
  have "array_read ((store (aggregate_rows grouping_example))[2 := [JNum 7]]) 2 = [JNum 7]
      \<and> array_read ((store (aggregate_rows grouping_example))[2 := [JNum 7]]) 1
          = array_read (store (aggregate_rows grouping_example)) 1"
    by (simp add: grouping_example_run)
  moreover have "array_read (store (aggregate_rows grouping_example)) 1 = [JNum 1, JNum 2]"
    by (simp add: grouping_example_run array_read_def)
  ultimately show ?thesis using view ents by simp
qed

text \<open>
  Claim C3 as stated appends a child value only when it is non-null, so that user
  \<open>b\<close> would get the empty list. \<open>jobs.push(currObj.job_id)\<close> is unconditional:
  user \<open>b\<close> gets \<open>[null]\<close>.
\<close>

theorem C3_counterexample_null_child:
  "entity_view (aggregate_rows grouping_example)
     = [(JStr ''a'', [JNum 1, JNum 2]), (JStr ''b'', [JNull])]
   \<and> entity_view (aggregate_rows grouping_example)
     \<noteq> [(JStr ''a'', [JNum 1, JNum 2]), (JStr ''b'', [])]"
  by (simp add: grouping_example_run entity_view_def array_read_def)

section \<open>Alignment of placeholders and parameters\<close>

lemma join_Cons_nonempty: "y \<noteq> [] \<Longrightarrow> join sep (y # ys) \<noteq> [] \<and> hd (join sep (y # ys)) = hd y"
  by (cases ys) auto

lemma placeholders_join:
  assumes "\<forall>p \<in> set ps. p \<noteq> [] \<and> \<not> is_digit (hd p)"
      and "sep \<noteq> []" "\<not> is_digit (hd sep)" "placeholders sep = []"
  shows "placeholders (join sep ps) = concat (map placeholders ps)"
  using assms(1)
proof (induction ps rule: induct_list012)
  case 1
  then show ?case by simp
next
  case (2 x)
  then show ?case by simp
next
  case (3 x y ys)
  from "3.prems" have y: "y \<noteq> []" "\<not> is_digit (hd y)" by simp_all
  let ?rest = "join sep (y # ys)"
  have rest: "?rest \<noteq> []" "hd ?rest = hd y"
    using join_Cons_nonempty [OF y(1)] by simp_all
  have ih: "placeholders ?rest = concat (map placeholders (y # ys))"
    using "3.IH"(2) "3.prems" by simp
  have "placeholders (x @ sep @ ?rest) = placeholders x @ placeholders (sep @ ?rest)"
    using assms(2,3) by (intro placeholders_append) simp
  also have "placeholders (sep @ ?rest) = placeholders sep @ placeholders ?rest"
    using rest y by (intro placeholders_append) simp
  finally show ?case
    using ih assms(4) by simp
qed

lemma company_cond_recognised:
  "key \<in> company_filter_names \<Longrightarrow>
   \<exists>p. company_cond idx key arr = arr @ [p @ CHR ''$'' # decimal (idx + 1)]
       \<and> p \<noteq> [] \<and> \<not> is_digit (hd p) \<and> CHR ''$'' \<notin> set p"
  by (auto simp: company_filter_names_def company_cond_def is_digit_def)

lemma company_cond_placeholders:
  assumes "key \<in> company_filter_names"
  shows "\<exists>c. company_cond idx key arr = arr @ [c] \<and> c \<noteq> [] \<and> \<not> is_digit (hd c)
             \<and> placeholders c = [idx + 1]"
proof -
  from company_cond_recognised [OF assms, of idx arr]
  obtain p where p: "company_cond idx key arr = arr @ [p @ CHR ''$'' # decimal (idx + 1)]"
    "p \<noteq> []" "\<not> is_digit (hd p)" "CHR ''$'' \<notin> set p" by blast
  have "placeholders (p @ CHR ''$'' # decimal (idx + 1) @ []) = placeholders p @ [idx + 1]"
    by (rule placeholders_key_suffix) simp_all
  with p(4) have "placeholders (p @ CHR ''$'' # decimal (idx + 1)) = [idx + 1]"
    by (simp add: placeholders_no_dollar)
  with p(1,2,3) show ?thesis by (intro exI [of _ "p @ CHR ''$'' # decimal (idx + 1)"]) simp
qed

lemma company_fold_placeholders:
  assumes "set keys \<subseteq> company_filter_names"
      and "\<forall>c \<in> set acc. c \<noteq> [] \<and> \<not> is_digit (hd c)"
  shows "(\<forall>c \<in> set (fold (\<lambda>(idx, key). company_cond idx key) (enumerate n keys) acc).
            c \<noteq> [] \<and> \<not> is_digit (hd c))
         \<and> concat (map placeholders
              (fold (\<lambda>(idx, key). company_cond idx key) (enumerate n keys) acc))
             = concat (map placeholders acc) @ [n + 1 ..< n + length keys + 1]"
  using assms
proof (induction keys arbitrary: n acc)
  case Nil
  then show ?case by simp
next
  case (Cons k keys)
  from Cons.prems(1) have k: "k \<in> company_filter_names" and ks: "set keys \<subseteq> company_filter_names"
    by simp_all
  from company_cond_placeholders [OF k, of n acc]
  obtain c where c: "company_cond n k acc = acc @ [c]" "c \<noteq> []" "\<not> is_digit (hd c)"
    "placeholders c = [n + 1]" by blast
  have acc': "\<forall>c \<in> set (acc @ [c]). c \<noteq> [] \<and> \<not> is_digit (hd c)"
    using Cons.prems(2) c by simp
  have upt: "[n + 1 ..< n + length (k # keys) + 1] = (n + 1) # [Suc n + 1 ..< Suc n + length keys + 1]"
    using upt_conv_Cons [of "n + 1" "n + length (k # keys) + 1"] by simp
  from Cons.IH [OF ks acc', of "Suc n"] c upt
  show ?case by simp
qed

lemma company_conds_placeholders:
  assumes "set keys \<subseteq> company_filter_names"
  shows "placeholders (''WHERE '' @ join '' AND '' (company_conds keys)) = [1 ..< length keys + 1]"
proof -
  from company_fold_placeholders [OF assms, of "[]" 0]
  have ne: "\<forall>c \<in> set (company_conds keys). c \<noteq> [] \<and> \<not> is_digit (hd c)"
    and ph: "concat (map placeholders (company_conds keys)) = [1 ..< length keys + 1]"
    by (simp_all add: company_conds_def)
  have j: "placeholders (join '' AND '' (company_conds keys))
             = concat (map placeholders (company_conds keys))"
    using ne by (rule placeholders_join) (simp_all add: is_digit_def)
  have "join '' AND '' (company_conds keys) = []
          \<or> \<not> is_digit (hd (join '' AND '' (company_conds keys)))"
  proof (cases "company_conds keys")
    case Nil
    then show ?thesis by simp
  next
    case (Cons c cs)
    with ne have "c \<noteq> []" "\<not> is_digit (hd c)" by simp_all
    with join_Cons_nonempty [of c "'' AND ''" cs] Cons show ?thesis by simp
  qed
  then have "placeholders (''WHERE '' @ join '' AND '' (company_conds keys))
               = placeholders ''WHERE '' @ placeholders (join '' AND '' (company_conds keys))"
    by (rule placeholders_append)
  with j ph show ?thesis by simp
qed

text \<open>
  The companies filter builder on a non-empty spec of recognised keys: the
  placeholders of the statement are \<open>$1\<close> to \<open>$n\<close> in this order and the
  parameter list holds the values of the entries in the same order.
\<close>

lemma company_filter_aligned:
  assumes "filters \<noteq> []" "set (Object_keys filters) \<subseteq> company_filter_names"
  shows "\<exists>s. Company_findAll_statement [(''filters'', filters)] = Inr s
           \<and> placeholders (query_text s) = [1 ..< length filters + 1]
           \<and> query_values s = Some (map snd filters)"
proof -
  let ?w = "''WHERE '' @ join '' AND '' (company_conds (Object_keys filters))"
  let ?emp = "''minEmployees'' \<in> set (Object_keys filters) \<or> ''maxEmployees'' \<in> set (Object_keys filters)"
  let ?s = "\<lparr>query_text = company_projection ?emp @ ?w @ company_order_by,
             query_values = Some (map snd filters)\<rparr>"
  have s: "Company_findAll_statement [(''filters'', filters)] = Inr ?s"
    using assms(1)
    by (simp add: Company_findAll_statement_def Object_keys_def Object_values_def Let_def
          company_query_parts)
  have w: "placeholders ?w = [1 ..< length filters + 1]"
    using company_conds_placeholders [OF assms(2)] by (simp add: Object_keys_def)
  have proj: "placeholders (company_projection ?emp) = []"
    by (rule placeholders_no_dollar) (simp add: company_projection_def)
  have ord: "placeholders company_order_by = []"
    by (rule placeholders_no_dollar) (simp add: company_order_by_def)
  have "placeholders (company_projection ?emp @ ?w @ company_order_by)
          = placeholders (company_projection ?emp) @ placeholders (?w @ company_order_by)"
    by (rule placeholders_append) (simp add: is_digit_def)
  also have "placeholders (?w @ company_order_by) = placeholders ?w @ placeholders company_order_by"
    by (rule placeholders_append) (simp add: company_order_by_def is_digit_def)
  finally have "placeholders (query_text ?s) = [1 ..< length filters + 1]"
    using w proj ord by simp
  with s show ?thesis by (intro exI [of _ ?s]) simp
qed

lemma update_col_placeholders:
  assumes "CHR ''$'' \<notin> set (resolved_column jsToSql colName)"
  shows "placeholders (update_col jsToSql colName idx) = [idx + 1]"
    and "update_col jsToSql colName idx \<noteq> []"
    and "\<not> is_digit (hd (update_col jsToSql colName idx))"
proof -
  let ?p = \<open>''"'' @ resolved_column jsToSql colName @ ''"=''\<close>
  have u: "update_col jsToSql colName idx = ?p @ CHR ''$'' # decimal (idx + 1) @ []"
    by (simp add: update_col_resolved)
  have "placeholders (?p @ CHR ''$'' # decimal (idx + 1) @ []) = placeholders ?p @ [idx + 1]"
    by (rule placeholders_key_suffix) simp_all
  moreover have "placeholders ?p = []"
    using assms by (intro placeholders_no_dollar) simp
  ultimately show "placeholders (update_col jsToSql colName idx) = [idx + 1]"
    by (simp only: u) simp
  show "update_col jsToSql colName idx \<noteq> []" by (simp add: update_col_def)
  show "\<not> is_digit (hd (update_col jsToSql colName idx))"
    by (simp add: update_col_def is_digit_def)
qed

lemma update_cols_placeholders:
  assumes "\<forall>k \<in> set keys. CHR ''$'' \<notin> set (resolved_column jsToSql k)"
  shows "concat (map placeholders
           (map (\<lambda>(idx, colName). update_col jsToSql colName idx) (enumerate n keys)))
         = [n + 1 ..< n + length keys + 1]"
  using assms
proof (induction keys arbitrary: n)
  case Nil
  then show ?case by simp
next
  case (Cons k keys)
  have upt: "[n + 1 ..< n + length (k # keys) + 1] = (n + 1) # [Suc n + 1 ..< Suc n + length keys + 1]"
    using upt_conv_Cons [of "n + 1" "n + length (k # keys) + 1"] by simp
  from Cons.prems have k: "CHR ''$'' \<notin> set (resolved_column jsToSql k)"
    and ks: "\<forall>k \<in> set keys. CHR ''$'' \<notin> set (resolved_column jsToSql k)" by simp_all
  from Cons.IH [OF ks, of "Suc n"] update_col_placeholders(1) [OF k, of n] upt
  show ?case by simp
qed

text \<open>
  The partial-update builder, for column names that hold no \<open>$\<close>: the
  placeholders of the SET fragment are \<open>$1\<close> to \<open>$n\<close> in this order and the
  parameter list holds the values of the entries in the same order.
\<close>

lemma update_builder_aligned:
  assumes "dataToUpdate \<noteq> []"
      and "\<forall>k \<in> set (map fst dataToUpdate). CHR ''$'' \<notin> set (resolved_column jsToSql k)"
  shows "\<exists>r. sqlForPartialUpdate dataToUpdate jsToSql = Inr r
           \<and> placeholders (setCols r) = [1 ..< length dataToUpdate + 1]
           \<and> values' r = map snd dataToUpdate"
proof -
  let ?cols = "map (\<lambda>(idx, colName). update_col jsToSql colName idx)
                 (enumerate 0 (map fst dataToUpdate))"
  have ne: "\<forall>c \<in> set ?cols. c \<noteq> [] \<and> \<not> is_digit (hd c)"
    using assms(2) by (auto simp: update_col_def is_digit_def)
  have "placeholders (join '', '' ?cols) = concat (map placeholders ?cols)"
    using ne by (rule placeholders_join) (simp_all add: is_digit_def)
  also have "\<dots> = [1 ..< length dataToUpdate + 1]"
    using update_cols_placeholders [OF assms(2), of 0] by simp
  finally show ?thesis
    using sqlForPartialUpdate_nonempty [OF assms(1), of jsToSql] by simp
qed

lemma job_positions_step:
  "n < length K \<Longrightarrow>
   job_positions K n = (if K ! n \<in> job_param_names then [n] else []) @ job_positions K (Suc n)"
  by (simp add: job_positions_def upt_conv_Cons)

lemma job_positions_end: "job_positions K (length K) = []"
  by (simp add: job_positions_def)

lemma job_cond_step:
  assumes "distinct K" "length V = length K" "i < length K" "K ! i \<in> job_filter_names"
  shows "\<exists>cs. job_cond K V i (K ! i) (arr, vs)
               = (arr @ cs, vs @ (if K ! i \<in> job_param_names then [V ! i] else []))
           \<and> (\<forall>c \<in> set cs. c \<noteq> [] \<and> \<not> is_digit (hd c))
           \<and> concat (map placeholders cs) = (if K ! i \<in> job_param_names then [Suc i] else [])"
proof -
  have get: "array_get V (indexOf K (K ! i)) = V ! i"
    using assms(1,2,3) by (simp add: indexOf_nth array_get_def)
  have t: "placeholders (''title ILIKE '' @ CHR ''$'' # decimal (i + 1) @ []) = placeholders ''title ILIKE '' @ [i + 1]"
    by (rule placeholders_key_suffix) simp_all
  have m: "placeholders (''salary>='' @ CHR ''$'' # decimal (i + 1) @ []) = placeholders ''salary>='' @ [i + 1]"
    by (rule placeholders_key_suffix) simp_all
  from assms(4) consider "K ! i = ''titleLike''" | "K ! i = ''minSalary''" | "K ! i = ''hasEquity''"
    by (auto simp: job_filter_names_def)
  then show ?thesis
  proof cases
    case 1
    then show ?thesis
      using get t
      by (intro exI [of _ "[''title ILIKE $'' @ decimal (i + 1)]"])
         (simp add: job_cond_def job_param_names_def is_digit_def)
  next
    case 2
    then show ?thesis
      using get m
      by (intro exI [of _ "[''salary>=$'' @ decimal (i + 1)]"])
         (simp add: job_cond_def job_param_names_def is_digit_def)
  next
    case 3
    then show ?thesis
      using get
      by (intro exI [of _ "if truthy (V ! i) then [''equity>'0'' @ [CHR 0x27]] else []"])
         (simp add: job_cond_def job_param_names_def is_digit_def)
  qed
qed

lemma job_fold:
  assumes "distinct K" "length V = length K" "set K \<subseteq> job_filter_names"
  shows "n \<le> length K \<Longrightarrow> \<forall>c \<in> set arr. c \<noteq> [] \<and> \<not> is_digit (hd c) \<Longrightarrow>
         (\<forall>c \<in> set (fst (fold (\<lambda>(idx, key). job_cond K V idx key) (enumerate n (drop n K)) (arr, vs))).
             c \<noteq> [] \<and> \<not> is_digit (hd c))
         \<and> concat (map placeholders
               (fst (fold (\<lambda>(idx, key). job_cond K V idx key) (enumerate n (drop n K)) (arr, vs))))
             = concat (map placeholders arr) @ map Suc (job_positions K n)
         \<and> snd (fold (\<lambda>(idx, key). job_cond K V idx key) (enumerate n (drop n K)) (arr, vs))
             = vs @ map ((!) V) (job_positions K n)"
proof (induction "length K - n" arbitrary: n arr vs)
  case 0
  then have "n = length K" by simp
  then show ?case using "0.prems"(2) by (simp add: job_positions_end)
next
  case (Suc d)
  then have n: "n < length K" by simp
  then have kn: "K ! n \<in> job_filter_names" using assms(3) by auto
  from job_cond_step [OF assms(1,2) n kn, of arr vs]
  obtain cs where cs: "job_cond K V n (K ! n) (arr, vs)
               = (arr @ cs, vs @ (if K ! n \<in> job_param_names then [V ! n] else []))"
    "\<forall>c \<in> set cs. c \<noteq> [] \<and> \<not> is_digit (hd c)"
    "concat (map placeholders cs) = (if K ! n \<in> job_param_names then [Suc n] else [])"
    by blast
  have dr: "drop n K = K ! n # drop (Suc n) K"
    using n by (simp add: Cons_nth_drop_Suc)
  have d: "d = length K - Suc n" using Suc.hyps(2) by simp
  have arr': "\<forall>c \<in> set (arr @ cs). c \<noteq> [] \<and> \<not> is_digit (hd c)"
    using Suc.prems(2) cs(2) by auto
  have sn: "Suc n \<le> length K" using n by simp
  note ih = Suc.hyps(1) [OF d sn arr', of "vs @ (if K ! n \<in> job_param_names then [V ! n] else [])"]
  show ?case
    using ih cs(1,3) by (simp add: dr job_positions_step [OF n])
qed

text \<open>
  The jobs filter builder on a non-empty spec of recognised keys: the parameter list
  holds the values of the \<open>titleLike\<close> and \<open>minSalary\<close> entries in the order of
  the spec, while the placeholder of such an entry is numbered by its position among
  all the entries, so a \<open>hasEquity\<close> entry ahead of one of them opens a gap, as
  in the evaluations for claims C1 and C2.
\<close>

lemma job_filter_numbering:
  assumes "filters \<noteq> []" "distinct (map fst filters)" "set (map fst filters) \<subseteq> job_filter_names"
  shows "\<exists>s. Job_findAll_statement [(''filters'', filters)] = Inr s
           \<and> placeholders (query_text s) = map Suc (job_positions (map fst filters) 0)
           \<and> query_values s = Some (map ((!) (map snd filters)) (job_positions (map fst filters) 0))"
proof -
  let ?K = "map fst filters" and ?V = "map snd filters"
  let ?res = "job_conds filters"
  have res: "?res = fold (\<lambda>(idx, key). job_cond ?K ?V idx key) (enumerate 0 (drop 0 ?K)) ([], [])"
    by (simp add: job_conds_def Object_keys_def Object_values_def Let_def)
  from job_fold [OF assms(2) _ assms(3), of ?V 0 "[]" "[]"]
  have ne: "\<forall>c \<in> set (fst ?res). c \<noteq> [] \<and> \<not> is_digit (hd c)"
    and ph: "concat (map placeholders (fst ?res)) = map Suc (job_positions ?K 0)"
    and vs: "snd ?res = map ((!) ?V) (job_positions ?K 0)"
    unfolding res by simp_all
  let ?w = "''WHERE '' @ join '' AND '' (fst ?res)"
  let ?s = "\<lparr>query_text = job_projection @ ?w @ job_order_by, query_values = Some (snd ?res)\<rparr>"
  have s: "Job_findAll_statement [(''filters'', filters)] = Inr ?s"
    using assms(1)
    by (simp add: Job_findAll_statement_def Object_keys_def job_query_parts split: prod.splits)
  have j: "placeholders (join '' AND '' (fst ?res)) = concat (map placeholders (fst ?res))"
    using ne by (rule placeholders_join) (simp_all add: is_digit_def)
  have "join '' AND '' (fst ?res) = [] \<or> \<not> is_digit (hd (join '' AND '' (fst ?res)))"
  proof (cases "fst ?res")
    case Nil
    then show ?thesis by simp
  next
    case (Cons c cs)
    with ne have "c \<noteq> []" "\<not> is_digit (hd c)" by simp_all
    with join_Cons_nonempty [of c "'' AND ''" cs] Cons show ?thesis by simp
  qed
  then have "placeholders ?w = placeholders ''WHERE '' @ placeholders (join '' AND '' (fst ?res))"
    by (rule placeholders_append)
  with j ph have w: "placeholders ?w = map Suc (job_positions ?K 0)" by simp
  have proj: "placeholders job_projection = []"
    by (rule placeholders_no_dollar) (simp add: job_projection_def)
  have ord: "placeholders job_order_by = []"
    by (rule placeholders_no_dollar) (simp add: job_order_by_def)
  have "placeholders (job_projection @ ?w @ job_order_by)
          = placeholders job_projection @ placeholders (?w @ job_order_by)"
    by (rule placeholders_append) (simp add: is_digit_def)
  also have "placeholders (?w @ job_order_by) = placeholders ?w @ placeholders job_order_by"
    by (rule placeholders_append) (simp add: job_order_by_def is_digit_def)
  finally have "placeholders (query_text ?s) = map Suc (job_positions ?K 0)"
    using w proj ord by simp
  with s vs show ?thesis by (intro exI [of _ ?s]) simp
qed

end
